theory Spec2Isabelle
  imports Complex_Main "HOL-Library.AList" "HOL-Library.Sublist"
begin

section \<open>Configuration of Augmentations\<close>

text \<open>
  The notebook \<^verbatim>\<open>04.1 - Augmenting Audio Data.ipynb\<close> is one linear script. Its
  configuration cell holds the constants below. Python floats are idealised as rationals.
\<close>

type_synonym samples = "rat list"

definition INPUT_DIR :: string where
  "INPUT_DIR = ''/workspace/data/raw_audio''"

definition OUTPUT_DIR :: string where
  "OUTPUT_DIR = ''/workspace/data/augmented_audio''"

definition SAMPLE_RATE :: nat where
  "SAMPLE_RATE = 16000"

definition NUM_AUGMENTATIONS :: nat where
  "NUM_AUGMENTATIONS = 3"

datatype param_key = noise_amplitude | time_stretch_rate | pitch_shift_semitones | shift_fraction

fun AUGMENTATION_PARAMS :: "param_key \<Rightarrow> rat \<times> rat" where
  "AUGMENTATION_PARAMS noise_amplitude = (1 / 1000, 15 / 1000)"
| "AUGMENTATION_PARAMS time_stretch_rate = (9 / 10, 11 / 10)"
| "AUGMENTATION_PARAMS pitch_shift_semitones = (- 2, 2)"
| "AUGMENTATION_PARAMS shift_fraction = (- (2 / 10), 2 / 10)"

definition RANDOM_SEED :: int where
  "RANDOM_SEED = 42"

section \<open>Paths\<close>

text \<open>
  A \<^verbatim>\<open>pathlib.Path\<close> is the list of its components. Absolute paths are read from
  the filesystem root, so the root itself is the empty list; the relative path \<^verbatim>\<open>.\<close> is
  the empty list as well.
\<close>

type_synonym path = "string list"

datatype error =
    ValueError | FileNotFoundError | FileExistsError | NotADirectoryError
  | IsADirectoryError | PermissionError | LoadError | WriteError

fun split_slash :: "string \<Rightarrow> string \<Rightarrow> string list" where
  "split_slash acc [] = [acc]"
| "split_slash acc (c # cs) =
     (if c = CHR ''/'' then acc # split_slash [] cs else split_slash (acc @ [c]) cs)"

definition Path :: "string \<Rightarrow> path" where
  "Path s = filter (\<lambda>c. c \<noteq> []) (split_slash [] s)"

definition str_path :: "path \<Rightarrow> string" where
  "str_path q = (if q = [] then ''/'' else concat (map (\<lambda>c. ''/'' @ c) q))"

definition relative_to :: "path \<Rightarrow> path \<Rightarrow> error + path" where
  "relative_to file_path base =
     (if take (length base) file_path = base then Inr (drop (length base) file_path)
      else Inl ValueError)"

definition parent :: "path \<Rightarrow> path" where
  "parent q = butlast q"

definition name_of :: "path \<Rightarrow> string" where
  "name_of q = (if q = [] then [] else last q)"

definition rfind :: "char \<Rightarrow> string \<Rightarrow> nat option" where
  "rfind c s =
     (if c \<in> set s then Some (length s - 1 - length (takeWhile (\<lambda>x. x \<noteq> c) (rev s)))
      else None)"

definition stem :: "path \<Rightarrow> string" where
  "stem q =
     (let name = name_of q in
      case rfind CHR ''.'' name of
        None \<Rightarrow> name
      | Some i \<Rightarrow> if 0 < i \<and> i < length name - 1 then take i name else name)"

definition fnmatch_wav :: "string \<Rightarrow> bool" where
  "fnmatch_wav name = (4 \<le> length name \<and> drop (length name - 4) name = ''.wav'')"

definition digit_char :: "nat \<Rightarrow> char" where
  "digit_char d = ''0123456789'' ! d"

fun str_nat :: "nat \<Rightarrow> string" where
  "str_nat n = (if n < 10 then [digit_char n] else str_nat (n div 10) @ [digit_char (n mod 10)])"

declare str_nat.simps [simp del]

section \<open>The filesystem\<close>

text \<open>
  The filesystem is an association list from absolute paths to nodes; its order stands for
  the order in which the operating system lists entries. \<open>denied\<close> holds the paths on which
  the process has no permission: a denied file cannot be opened, a denied directory cannot
  be listed and nothing can be created in it.
\<close>

datatype content = Audio nat samples | Undecodable

datatype node = Dir | File content

record filesystem =
  nodes :: "(path \<times> node) list"
  denied :: "path list"

definition lookup :: "filesystem \<Rightarrow> path \<Rightarrow> node option" where
  "lookup d q = (if q = [] then Some Dir else map_of (nodes d) q)"

definition store :: "filesystem \<Rightarrow> path \<Rightarrow> node \<Rightarrow> filesystem" where
  "store d q n = d\<lparr>nodes := AList.update q n (nodes d)\<rparr>"

definition is_dir :: "filesystem \<Rightarrow> path \<Rightarrow> bool" where
  "is_dir d q = (lookup d q = Some Dir)"

definition os_mkdir :: "filesystem \<Rightarrow> path \<Rightarrow> error + filesystem" where
  "os_mkdir d q =
     (case lookup d q of
        Some _ \<Rightarrow> Inl FileExistsError
      | None \<Rightarrow>
          (case lookup d (butlast q) of
             None \<Rightarrow> Inl FileNotFoundError
           | Some (File _) \<Rightarrow> Inl NotADirectoryError
           | Some Dir \<Rightarrow>
               if butlast q \<in> set (denied d) then Inl PermissionError
               else Inr (store d q Dir)))"

text \<open>
  \<^verbatim>\<open>Path.mkdir(parents=False, exist_ok=True)\<close>: a missing parent is an error; any other
  failure is ignored when the path is a directory already. A failure returns the
  filesystem as it is at that moment.
\<close>

definition mkdir_leaf :: "path \<Rightarrow> filesystem \<Rightarrow> error \<times> filesystem + filesystem" where
  "mkdir_leaf q d =
     (case os_mkdir d q of
        Inr d' \<Rightarrow> Inr d'
      | Inl e \<Rightarrow>
          if e = FileNotFoundError then Inl (e, d)
          else if is_dir d q then Inr d else Inl (e, d))"

text \<open>
  \<^verbatim>\<open>Path.mkdir(parents=True, exist_ok=True)\<close>: a missing parent is created first, by the
  same call on the parent, and then the directory itself without \<^verbatim>\<open>parents\<close>.
  Parents created before a failure stay.
\<close>

function mkdir_parents :: "path \<Rightarrow> filesystem \<Rightarrow> error \<times> filesystem + filesystem" where
  "mkdir_parents q d =
     (case os_mkdir d q of
        Inr d' \<Rightarrow> Inr d'
      | Inl e \<Rightarrow>
          if e = FileNotFoundError then
            (if q = [] then Inl (e, d)
             else (case mkdir_parents (butlast q) d of
                     Inl failure \<Rightarrow> Inl failure
                   | Inr d1 \<Rightarrow> mkdir_leaf q d1))
          else if is_dir d q then Inr d else Inl (e, d))"
  by pat_completeness auto
termination
  by (relation "measure (\<lambda>(q, d). length q)") auto

declare mkdir_parents.simps [simp del]

text \<open>
  The third-party code the notebook calls is not in the source tree. What the claims need
  of it is a parameter: \<open>mt\<close>, the values of Python's generator for a seed; \<open>resample\<close>,
  the decoding and resampling of librosa; \<open>apply_transform\<close>, the signal processing of a
  transform of audiomentations, given its name, its parameter and the sample rate.
\<close>

record lib =
  mt :: "int \<Rightarrow> nat \<Rightarrow> rat"
  resample :: "nat \<Rightarrow> nat \<Rightarrow> samples \<Rightarrow> samples"
  apply_transform :: "string \<Rightarrow> rat \<Rightarrow> nat \<Rightarrow> samples \<Rightarrow> samples"

text \<open>
  \<^verbatim>\<open>librosa.load(file_path, sr=sample_rate)\<close>: the waveform resampled to the rate asked
  for, and that rate.
\<close>

definition librosa_load :: "lib \<Rightarrow> filesystem \<Rightarrow> path \<Rightarrow> nat \<Rightarrow> error + (samples \<times> nat)" where
  "librosa_load L d file_path sr =
     (case lookup d file_path of
        None \<Rightarrow> Inl FileNotFoundError
      | Some Dir \<Rightarrow> Inl IsADirectoryError
      | Some (File c) \<Rightarrow>
          if file_path \<in> set (denied d) then Inl PermissionError
          else (case c of
                  Undecodable \<Rightarrow> Inl LoadError
                | Audio r w \<Rightarrow> Inr (resample L r sr w, sr)))"

text \<open>
  \<^verbatim>\<open>sf.write(output_path, augmented, sample_rate)\<close>: the file is created or truncated
  and holds the samples at the rate given.
\<close>

definition sf_write :: "filesystem \<Rightarrow> path \<Rightarrow> samples \<Rightarrow> nat \<Rightarrow> error + filesystem" where
  "sf_write d output_path w sr =
     (case lookup d output_path of
        Some Dir \<Rightarrow> Inl WriteError
      | Some (File _) \<Rightarrow>
          if output_path \<in> set (denied d) then Inl WriteError
          else Inr (store d output_path (File (Audio sr w)))
      | None \<Rightarrow>
          if lookup d (butlast output_path) = Some Dir \<and> butlast output_path \<notin> set (denied d)
          then Inr (store d output_path (File (Audio sr w)))
          else Inl WriteError)"

text \<open>
  \<^verbatim>\<open>input_root.rglob("*.wav")\<close>: every entry below the root whose name matches, of either
  kind (a directory named \<^verbatim>\<open>x.wav\<close> matches too). A root that is not a directory, or
  a directory that cannot be listed, yields nothing and raises nothing.
\<close>

definition visible :: "filesystem \<Rightarrow> path \<Rightarrow> path \<Rightarrow> bool" where
  "visible d base q =
     (length base < length q \<and> take (length base) q = base \<and>
      list_all (\<lambda>k. lookup d (take k q) = Some Dir \<and> take k q \<notin> set (denied d))
        [length base..<length q])"

definition rglob_wav :: "filesystem \<Rightarrow> path \<Rightarrow> path list" where
  "rglob_wav d base =
     filter (\<lambda>q. visible d base q \<and> fnmatch_wav (last q)) (remdups (map fst (nodes d)))"

section \<open>Setup Augmentation Pipeline\<close>

text \<open>
  Python's \<^verbatim>\<open>random\<close> module: the generator is the parameter \<open>mt\<close>, the stream of
  values of \<^verbatim>\<open>random.random()\<close> after \<^verbatim>\<open>random.seed(a)\<close>; the state is the seed and the number of
  values drawn so far.
\<close>

record rng_state =
  seed :: int
  pos :: nat

definition random_seed :: "int \<Rightarrow> rng_state" where
  "random_seed a = \<lparr>seed = a, pos = 0\<rparr>"

definition random_random :: "lib \<Rightarrow> rng_state \<Rightarrow> rat \<times> rng_state" where
  "random_random L g = (mt L (seed g) (pos g), g\<lparr>pos := pos g + 1\<rparr>)"

definition random_uniform :: "lib \<Rightarrow> rat \<Rightarrow> rat \<Rightarrow> rng_state \<Rightarrow> rat \<times> rng_state" where
  "random_uniform L a b g = (let (u, g') = random_random L g in (a + (b - a) * u, g'))"

record transform =
  t_name :: string
  min_value :: rat
  max_value :: rat
  prob :: rat

definition augmenter :: "transform list" where
  "augmenter =
     [\<lparr>t_name = ''AddGaussianNoise'',
       min_value = fst (AUGMENTATION_PARAMS noise_amplitude),
       max_value = snd (AUGMENTATION_PARAMS noise_amplitude), prob = 1 / 2\<rparr>,
      \<lparr>t_name = ''TimeStretch'',
       min_value = fst (AUGMENTATION_PARAMS time_stretch_rate),
       max_value = snd (AUGMENTATION_PARAMS time_stretch_rate), prob = 1 / 2\<rparr>,
      \<lparr>t_name = ''PitchShift'',
       min_value = fst (AUGMENTATION_PARAMS pitch_shift_semitones),
       max_value = snd (AUGMENTATION_PARAMS pitch_shift_semitones), prob = 1 / 2\<rparr>,
      \<lparr>t_name = ''Shift'',
       min_value = fst (AUGMENTATION_PARAMS shift_fraction),
       max_value = snd (AUGMENTATION_PARAMS shift_fraction), prob = 1 / 2\<rparr>]"

text \<open>
  Modelled from the spec: the classes \<^verbatim>\<open>Compose\<close>, \<^verbatim>\<open>AddGaussianNoise\<close>,
  \<^verbatim>\<open>TimeStretch\<close>, \<^verbatim>\<open>PitchShift\<close> and \<^verbatim>\<open>Shift\<close> come from the
  package audiomentations, which is not in the source tree. The spec, section 4.1: the
  transforms are applied in order to the waveform; each one decides by its own random draw
  whether to activate, with its probability; when it activates it takes a random parameter in
  its window \<open>[min, max]\<close>. The signal processing itself is the parameter \<open>apply_transform\<close>.
\<close>

definition transform_call :: "lib \<Rightarrow> transform \<Rightarrow> nat \<Rightarrow> samples \<times> rng_state \<Rightarrow> samples \<times> rng_state" where
  \<comment> \<open>Modelled from the spec: one transform of audiomentations called on a waveform.\<close>
  "transform_call L t sr yg =
     (let (y, g) = yg; (u, g1) = random_random L g in
      if u < prob t then
        (let (v, g2) = random_uniform L (min_value t) (max_value t) g1
         in (apply_transform L (t_name t) v sr y, g2))
      else (y, g1))"

definition compose_call :: "lib \<Rightarrow> transform list \<Rightarrow> nat \<Rightarrow> samples \<times> rng_state \<Rightarrow> samples \<times> rng_state" where
  \<comment> \<open>Modelled from the spec: \<^verbatim>\<open>Compose.__call__\<close> of audiomentations.\<close>
  "compose_call L ts sr yg = fold (\<lambda>t. transform_call L t sr) ts yg"

section \<open>Process and Augment a Single File\<close>

record state =
  disk :: filesystem
  gen :: rng_state
  stdout :: "string list"

datatype outcome = Returned state | Raised error state

fun final :: "outcome \<Rightarrow> state" where
  "final (Returned s) = s"
| "final (Raised e s) = s"

definition print :: "string \<Rightarrow> state \<Rightarrow> state" where
  "print line s = s\<lparr>stdout := stdout s @ [line]\<rparr>"

definition aug_name :: "string \<Rightarrow> nat \<Rightarrow> string" where
  "aug_name basename i = basename @ ''_aug'' @ str_nat (i + 1) @ ''.wav''"

fun augment_loop ::
  "lib \<Rightarrow> samples \<Rightarrow> nat \<Rightarrow> path \<Rightarrow> path \<Rightarrow> string \<Rightarrow> nat list \<Rightarrow> state \<Rightarrow> outcome" where
  "augment_loop L y sample_rate output_root class_subdir basename [] s = Returned s"
| "augment_loop L y sample_rate output_root class_subdir basename (i # rest) s =
     (let (augmented, g) = compose_call L augmenter sample_rate (y, gen s);
          s1 = s\<lparr>gen := g\<rparr>;
          output_subdir = output_root @ class_subdir
      in case mkdir_parents output_subdir (disk s1) of
           Inl (e, d1) \<Rightarrow> Raised e (s1\<lparr>disk := d1\<rparr>)
         | Inr d1 \<Rightarrow>
             (let s2 = s1\<lparr>disk := d1\<rparr>;
                  output_path = output_subdir @ [aug_name basename i]
              in case sf_write d1 output_path augmented sample_rate of
                   Inl e \<Rightarrow> Raised e s2
                 | Inr d2 \<Rightarrow>
                     augment_loop L y sample_rate output_root class_subdir basename rest
                       (print (''Saved: '' @ str_path output_path) (s2\<lparr>disk := d2\<rparr>))))"

definition augment_and_save :: "lib \<Rightarrow> path \<Rightarrow> nat \<Rightarrow> path \<Rightarrow> path \<Rightarrow> state \<Rightarrow> outcome" where
  "augment_and_save L file_path sample_rate input_root output_root s =
     (case relative_to file_path input_root of
        Inl e \<Rightarrow> Raised e s
      | Inr relative_path \<Rightarrow>
          (let class_subdir = parent relative_path;
               basename = stem relative_path
           in case librosa_load L (disk s) file_path sample_rate of
                Inl e \<Rightarrow> Raised e s
              | Inr (y, sr) \<Rightarrow>
                  augment_loop L y sample_rate output_root class_subdir basename
                    [0..<NUM_AUGMENTATIONS] s))"

section \<open>Apply Augmentation to All Files In Input Folder\<close>

fun for_files :: "lib \<Rightarrow> path list \<Rightarrow> path \<Rightarrow> path \<Rightarrow> state \<Rightarrow> outcome" where
  "for_files L [] input_root output_root s = Returned s"
| "for_files L (file_path # rest) input_root output_root s =
     (case augment_and_save L file_path SAMPLE_RATE input_root output_root s of
        Raised e s' \<Rightarrow> Raised e s'
      | Returned s' \<Rightarrow> for_files L rest input_root output_root s')"

definition found_line :: "nat \<Rightarrow> string" where
  "found_line n = ''Found '' @ str_nat n @ '' audio files in '' @ INPUT_DIR"

definition done_line :: string where
  "done_line =
     [CHR 0x0A, CHR 0xE2, CHR 0x9C, CHR 0x85] @ '' Done. Augmented files saved to: '' @ OUTPUT_DIR"

definition driver :: "lib \<Rightarrow> state \<Rightarrow> outcome" where
  "driver L s =
     (let input_root = Path INPUT_DIR;
          output_root = Path OUTPUT_DIR;
          input_files = rglob_wav (disk s) input_root;
          s1 = print (found_line (length input_files)) s
      in case for_files L input_files input_root output_root s1 of
           Raised e s' \<Rightarrow> Raised e s'
         | Returned s2 \<Rightarrow> Returned (print done_line s2))"

text \<open>The whole notebook: the generator is seeded once, then the driver cell runs.\<close>

definition notebook :: "lib \<Rightarrow> filesystem \<Rightarrow> outcome" where
  "notebook L d = driver L \<lparr>disk = d, gen = random_seed RANDOM_SEED, stdout = []\<rparr>"

section \<open>Predicates of the verification\<close>

text \<open>What one successful or failed \<open>mkdir\<close> may have done to the disk.\<close>

definition grown :: "path \<Rightarrow> filesystem \<Rightarrow> filesystem \<Rightarrow> bool" where
  "grown q d d' \<longleftrightarrow>
     denied d' = denied d \<and>
     (\<forall>r. lookup d' r = lookup d r \<or>
          (lookup d r = None \<and> lookup d' r = Some Dir \<and> prefix r q))"

text \<open>The generator after \<open>k\<close> applications of the chain to the same waveform.\<close>

fun gen_iter :: "lib \<Rightarrow> samples \<Rightarrow> nat \<Rightarrow> nat \<Rightarrow> rng_state \<Rightarrow> rng_state" where
  "gen_iter L y sr 0 g = g"
| "gen_iter L y sr (Suc k) g = gen_iter L y sr k (snd (compose_call L augmenter sr (y, g)))"

text \<open>
  What a run of the loop may have done to the disk: directories created on the way to
  \<open>q\<close>, and audio files at rate \<open>sr\<close> at the target paths.
\<close>

definition touched :: "nat \<Rightarrow> path \<Rightarrow> path list \<Rightarrow> filesystem \<Rightarrow> filesystem \<Rightarrow> bool" where
  "touched sr q targets d d' \<longleftrightarrow>
     denied d' = denied d \<and>
     (\<forall>r. lookup d' r = lookup d r \<or>
          (lookup d r = None \<and> lookup d' r = Some Dir \<and> prefix r q) \<or>
          (r \<in> set targets \<and> (\<exists>w. lookup d' r = Some (File (Audio sr w)))))"

text \<open>
  The output directory and the targets are free or already there as what the loop needs
  them to be, and nothing on the way is denied.
\<close>

definition ready :: "path \<Rightarrow> path list \<Rightarrow> filesystem \<Rightarrow> bool" where
  "ready q targets d \<longleftrightarrow>
     (\<forall>r. prefix r q \<longrightarrow> (lookup d r = None \<or> lookup d r = Some Dir) \<and> r \<notin> set (denied d)) \<and>
     (\<forall>t \<in> set targets. (lookup d t = None \<or> (\<exists>c. lookup d t = Some (File c))) \<and> t \<notin> set (denied d))"

text \<open>
  The names the spec gives to the outputs of one input file: \<^verbatim>\<open>{basename}_aug{i}.wav\<close>
  for \<open>i\<close> from 1 to the number of augmentations.
\<close>

definition spec_output_names :: "string \<Rightarrow> nat \<Rightarrow> string list" where
  "spec_output_names basename n = map (\<lambda>i. basename @ ''_aug'' @ str_nat i @ ''.wav'') [1..<Suc n]"

text \<open>
  The lines that the spec lets one input file print: one \<^verbatim>\<open>Saved: ...\<close> for each of its
  output names, under the output root joined with its class subdirectory.
\<close>

definition spec_saved_lines :: "path \<Rightarrow> path \<Rightarrow> path \<Rightarrow> string list" where
  "spec_saved_lines input_root output_root f =
     (case relative_to f input_root of
        Inl e \<Rightarrow> []
      | Inr rel \<Rightarrow>
          map (\<lambda>n. ''Saved: '' @ str_path (output_root @ parent rel @ [n]))
            (spec_output_names (stem rel) NUM_AUGMENTATIONS))"

text \<open>
  What a run over a list of files may have done to the disk: directories created on the way
  to the mirrored class subdirectory of one of the files, and audio files at the configured
  rate under the output names of one of the files.
\<close>

definition run_effect :: "path \<Rightarrow> path \<Rightarrow> path list \<Rightarrow> nat \<Rightarrow> filesystem \<Rightarrow> filesystem \<Rightarrow> bool" where
  "run_effect input_root output_root files n d d' \<longleftrightarrow>
     denied d' = denied d \<and>
     (\<forall>r. lookup d' r = lookup d r \<or>
          (lookup d r = None \<and> lookup d' r = Some Dir \<and>
           (\<exists>f \<in> set files. \<exists>rel. relative_to f input_root = Inr rel \<and>
              prefix r (output_root @ parent rel))) \<or>
          (\<exists>f \<in> set files. \<exists>rel. \<exists>i < n.
              relative_to f input_root = Inr rel \<and>
              r = output_root @ parent rel @ [aug_name (stem rel) i] \<and>
              (\<exists>w. lookup d' r = Some (File (Audio SAMPLE_RATE w)))))"

text \<open>
  The run cut after the \<open>k\<close>-th write of the file \<open>f\<close>, the files \<open>pre\<close> before it being
  done: the driver's loop over \<open>pre\<close>, then the body of \<open>augment_and_save\<close> on \<open>f\<close> with the
  loop over the augmentations stopped after \<open>k\<close> rounds.
\<close>

definition state_after ::
  "lib \<Rightarrow> path list \<Rightarrow> path \<Rightarrow> nat \<Rightarrow> path \<Rightarrow> path \<Rightarrow> state \<Rightarrow> outcome" where
  "state_after L pre f k input_root output_root s =
     (case for_files L pre input_root output_root s of
        Raised e s' \<Rightarrow> Raised e s'
      | Returned s1 \<Rightarrow>
          (case relative_to f input_root of
             Inl e \<Rightarrow> Raised e s1
           | Inr rel \<Rightarrow>
               (case librosa_load L (disk s1) f SAMPLE_RATE of
                  Inl e \<Rightarrow> Raised e s1
                | Inr (y, sr) \<Rightarrow>
                    augment_loop L y SAMPLE_RATE output_root (parent rel) (stem rel) [0..<k] s1)))"

text \<open>
  The transforms that activate in one invocation of the chain, in the order in which they
  are applied, each with the parameter it drew; and the generator after the invocation.
  Both follow the draws of \<open>transform_call\<close>.
\<close>

fun fired :: "lib \<Rightarrow> transform list \<Rightarrow> rng_state \<Rightarrow> (string \<times> rat) list" where
  "fired L [] g = []"
| "fired L (t # ts) g =
     (let (u, g1) = random_random L g in
      if u < prob t then
        (let (v, g2) = random_uniform L (min_value t) (max_value t) g1
         in (t_name t, v) # fired L ts g2)
      else fired L ts g1)"

fun gen_after :: "lib \<Rightarrow> transform list \<Rightarrow> rng_state \<Rightarrow> rng_state" where
  "gen_after L [] g = g"
| "gen_after L (t # ts) g =
     (let (u, g1) = random_random L g in
      if u < prob t then
        (let (v, g2) = random_uniform L (min_value t) (max_value t) g1
         in gen_after L ts g2)
      else gen_after L ts g1)"

section \<open>Concrete inputs\<close>

text \<open>
  Two instances of the library parameters: under \<open>quiet_lib\<close> every draw is \<open>3/4\<close> and no
  transform fires; under \<open>loud_lib\<close> every draw is \<open>1/4\<close>, every transform fires and adds
  its parameter to each sample.
\<close>

definition quiet_lib :: lib where
  "quiet_lib = \<lparr>mt = (\<lambda>a k. 3 / 4), resample = (\<lambda>r sr w. w), apply_transform = (\<lambda>n v sr w. w)\<rparr>"

definition loud_lib :: lib where
  "loud_lib =
     \<lparr>mt = (\<lambda>a k. 1 / 4), resample = (\<lambda>r sr w. w),
      apply_transform = (\<lambda>n v sr w. map (\<lambda>x. x + v) w)\<rparr>"

definition tiny_disk :: filesystem where
  "tiny_disk =
     \<lparr>nodes =
        [([''in''], Dir),
         ([''in'', ''red''], Dir),
         ([''in'', ''red'', ''yes.wav''], File (Audio 8000 [1, 2]))],
      denied = []\<rparr>"

definition tiny_state :: state where
  "tiny_state = \<lparr>disk = tiny_disk, gen = random_seed RANDOM_SEED, stdout = []\<rparr>"

definition demo_disk :: filesystem where
  "demo_disk =
     \<lparr>nodes =
        [([''workspace''], Dir),
         ([''workspace'', ''data''], Dir),
         ([''workspace'', ''data'', ''raw_audio''], Dir),
         ([''workspace'', ''data'', ''raw_audio'', ''red''], Dir),
         ([''workspace'', ''data'', ''raw_audio'', ''red'', ''yes.wav''], File (Audio 8000 [1, 2])),
         ([''workspace'', ''data'', ''raw_audio'', ''blue''], Dir),
         ([''workspace'', ''data'', ''raw_audio'', ''blue'', ''no.wav''], File (Audio 44100 [3]))],
      denied = []\<rparr>"

definition tiny_after :: state where
  "tiny_after =
     \<lparr>disk =
        \<lparr>nodes =
           [([''in''], Dir),
            ([''in'', ''red''], Dir),
            ([''in'', ''red'', ''yes.wav''], File (Audio 8000 [1, 2])),
            ([''out''], Dir),
            ([''out'', ''red''], Dir),
            ([''out'', ''red'', ''yes_aug1.wav''], File (Audio 16000 [1, 2])),
            ([''out'', ''red'', ''yes_aug2.wav''], File (Audio 16000 [1, 2])),
            ([''out'', ''red'', ''yes_aug3.wav''], File (Audio 16000 [1, 2]))],
         denied = []\<rparr>,
      gen = \<lparr>seed = 42, pos = 12\<rparr>,
      stdout =
        [''Saved: /out/red/yes_aug1.wav'', ''Saved: /out/red/yes_aug2.wav'',
         ''Saved: /out/red/yes_aug3.wav'']\<rparr>"

definition demo_after :: state where
  "demo_after =
     \<lparr>disk =
        \<lparr>nodes =
           [([''workspace''], Dir),
            ([''workspace'', ''data''], Dir),
            ([''workspace'', ''data'', ''raw_audio''], Dir),
            ([''workspace'', ''data'', ''raw_audio'', ''red''], Dir),
            ([''workspace'', ''data'', ''raw_audio'', ''red'', ''yes.wav''], File (Audio 8000 [1, 2])),
            ([''workspace'', ''data'', ''raw_audio'', ''blue''], Dir),
            ([''workspace'', ''data'', ''raw_audio'', ''blue'', ''no.wav''], File (Audio 44100 [3])),
            ([''workspace'', ''data'', ''augmented_audio''], Dir),
            ([''workspace'', ''data'', ''augmented_audio'', ''red''], Dir),
            ([''workspace'', ''data'', ''augmented_audio'', ''red'', ''yes_aug1.wav''], File (Audio 16000 [1, 2])),
            ([''workspace'', ''data'', ''augmented_audio'', ''red'', ''yes_aug2.wav''], File (Audio 16000 [1, 2])),
            ([''workspace'', ''data'', ''augmented_audio'', ''red'', ''yes_aug3.wav''], File (Audio 16000 [1, 2])),
            ([''workspace'', ''data'', ''augmented_audio'', ''blue''], Dir),
            ([''workspace'', ''data'', ''augmented_audio'', ''blue'', ''no_aug1.wav''], File (Audio 16000 [3])),
            ([''workspace'', ''data'', ''augmented_audio'', ''blue'', ''no_aug2.wav''], File (Audio 16000 [3])),
            ([''workspace'', ''data'', ''augmented_audio'', ''blue'', ''no_aug3.wav''], File (Audio 16000 [3]))],
         denied = []\<rparr>,
      gen = \<lparr>seed = 42, pos = 24\<rparr>,
      stdout =
        [''Found 2 audio files in /workspace/data/raw_audio'',
         ''Saved: /workspace/data/augmented_audio/red/yes_aug1.wav'',
         ''Saved: /workspace/data/augmented_audio/red/yes_aug2.wav'',
         ''Saved: /workspace/data/augmented_audio/red/yes_aug3.wav'',
         ''Saved: /workspace/data/augmented_audio/blue/no_aug1.wav'',
         ''Saved: /workspace/data/augmented_audio/blue/no_aug2.wav'',
         ''Saved: /workspace/data/augmented_audio/blue/no_aug3.wav'',
         done_line]\<rparr>"


definition tiny_loud_after :: state where
  "tiny_loud_after =
     \<lparr>disk =
        \<lparr>nodes =
           [([''in''], Dir),
            ([''in'', ''red''], Dir),
            ([''in'', ''red'', ''yes.wav''], File (Audio 8000 [1, 2])),
            ([''out''], Dir),
            ([''out'', ''red''], Dir),
            ([''out'', ''red'', ''yes_aug1.wav''], File (Audio 16000 [1709 / 2000, 3709 / 2000])),
            ([''out'', ''red'', ''yes_aug2.wav''], File (Audio 16000 [1709 / 2000, 3709 / 2000])),
            ([''out'', ''red'', ''yes_aug3.wav''], File (Audio 16000 [1709 / 2000, 3709 / 2000]))],
         denied = []\<rparr>,
      gen = \<lparr>seed = 42, pos = 24\<rparr>,
      stdout =
        [''Saved: /out/red/yes_aug1.wav'', ''Saved: /out/red/yes_aug2.wav'',
         ''Saved: /out/red/yes_aug3.wav'']\<rparr>"

definition no_input_disk :: filesystem where
  "no_input_disk =
     \<lparr>nodes = [([''workspace''], Dir), ([''workspace'', ''data''], Dir)], denied = []\<rparr>"

definition empty_input_disk :: filesystem where
  "empty_input_disk =
     \<lparr>nodes =
        [([''workspace''], Dir),
         ([''workspace'', ''data''], Dir),
         ([''workspace'', ''data'', ''raw_audio''], Dir),
         ([''workspace'', ''data'', ''raw_audio'', ''notes.txt''], File Undecodable)],
      denied = []\<rparr>"

definition corrupt_disk :: filesystem where
  "corrupt_disk =
     \<lparr>nodes =
        [([''workspace''], Dir),
         ([''workspace'', ''data''], Dir),
         ([''workspace'', ''data'', ''raw_audio''], Dir),
         ([''workspace'', ''data'', ''raw_audio'', ''red''], Dir),
         ([''workspace'', ''data'', ''raw_audio'', ''red'', ''yes.wav''], File Undecodable),
         ([''workspace'', ''data'', ''raw_audio'', ''blue''], Dir),
         ([''workspace'', ''data'', ''raw_audio'', ''blue'', ''no.wav''], File (Audio 44100 [3]))],
      denied = []\<rparr>"

definition corrupt_start :: state where
  "corrupt_start = \<lparr>disk = corrupt_disk, gen = random_seed RANDOM_SEED, stdout = []\<rparr>"

definition dir_only_disk :: filesystem where
  "dir_only_disk =
     \<lparr>nodes =
        [([''workspace''], Dir),
         ([''workspace'', ''data''], Dir),
         ([''workspace'', ''data'', ''raw_audio''], Dir),
         ([''workspace'', ''data'', ''raw_audio'', ''clips.wav''], Dir)],
      denied = []\<rparr>"

definition blocked_tiny :: state where
  "blocked_tiny =
     \<lparr>disk =
        \<lparr>nodes =
           [([''in''], Dir),
            ([''in'', ''red''], Dir),
            ([''in'', ''red'', ''yes.wav''], File (Audio 8000 [1, 2])),
            ([''out''], File Undecodable)],
         denied = []\<rparr>,
      gen = random_seed RANDOM_SEED, stdout = []\<rparr>"

definition dir_target :: state where
  "dir_target =
     \<lparr>disk =
        \<lparr>nodes =
           [([''in''], Dir),
            ([''in'', ''red''], Dir),
            ([''in'', ''red'', ''yes.wav''], File (Audio 8000 [1, 2])),
            ([''out''], Dir),
            ([''out'', ''red''], Dir),
            ([''out'', ''red'', ''yes_aug2.wav''], Dir)],
         denied = []\<rparr>,
      gen = random_seed RANDOM_SEED, stdout = []\<rparr>"

definition dir_target_after1 :: state where
  "dir_target_after1 =
     \<lparr>disk =
        \<lparr>nodes =
           [([''in''], Dir),
            ([''in'', ''red''], Dir),
            ([''in'', ''red'', ''yes.wav''], File (Audio 8000 [1, 2])),
            ([''out''], Dir),
            ([''out'', ''red''], Dir),
            ([''out'', ''red'', ''yes_aug2.wav''], Dir),
            ([''out'', ''red'', ''yes_aug1.wav''], File (Audio 16000 [1, 2]))],
         denied = []\<rparr>,
      gen = \<lparr>seed = 42, pos = 4\<rparr>,
      stdout = [''Saved: /out/red/yes_aug1.wav'']\<rparr>"

text \<open>
  A third instance of the library parameters, with a resampler that shows: under
  \<open>tagging_lib\<close> the resampled waveform starts with the rate it came from and the rate it
  was brought to; no transform fires.
\<close>

definition tagging_lib :: lib where
  "tagging_lib =
     \<lparr>mt = (\<lambda>a k. 3 / 4), resample = (\<lambda>r sr w. of_nat r # of_nat sr # w),
      apply_transform = (\<lambda>n v sr w. w)\<rparr>"

definition tiny_tagged_after :: state where
  "tiny_tagged_after =
     \<lparr>disk =
        \<lparr>nodes =
           [([''in''], Dir),
            ([''in'', ''red''], Dir),
            ([''in'', ''red'', ''yes.wav''], File (Audio 8000 [1, 2])),
            ([''out''], Dir),
            ([''out'', ''red''], Dir),
            ([''out'', ''red'', ''yes_aug1.wav''], File (Audio 16000 [8000, 16000, 1, 2])),
            ([''out'', ''red'', ''yes_aug2.wav''], File (Audio 16000 [8000, 16000, 1, 2])),
            ([''out'', ''red'', ''yes_aug3.wav''], File (Audio 16000 [8000, 16000, 1, 2]))],
         denied = []\<rparr>,
      gen = \<lparr>seed = 42, pos = 12\<rparr>,
      stdout =
        [''Saved: /out/red/yes_aug1.wav'', ''Saved: /out/red/yes_aug2.wav'',
         ''Saved: /out/red/yes_aug3.wav'']\<rparr>"

section \<open>Output names\<close>

lemma digit_char_inj: "a < 10 \<Longrightarrow> b < 10 \<Longrightarrow> digit_char a = digit_char b \<Longrightarrow> a = b"
proof -
  assume a: "a < 10" and b: "b < 10" and eq: "digit_char a = digit_char b"
  have "distinct ''0123456789''"
    by simp
  moreover have "a < length ''0123456789''" "b < length ''0123456789''"
    using a b by simp_all
  ultimately show "a = b"
    using eq unfolding digit_char_def by (simp only: nth_eq_iff_index_eq)
qed

lemma str_nat_snoc:
  "str_nat n = (if n < 10 then [] else str_nat (n div 10)) @ [digit_char (n mod 10)]"
  by (subst str_nat.simps) simp

lemma str_nat_nonempty: "str_nat n \<noteq> []"
  by (subst str_nat_snoc) simp

lemma str_nat_inj: "str_nat m = str_nat n \<Longrightarrow> m = n"
proof (induction m arbitrary: n rule: str_nat.induct)
  case (1 m)
  from "1.prems" have eq:
    "(if m < 10 then [] else str_nat (m div 10)) @ [digit_char (m mod 10)] =
     (if n < 10 then [] else str_nat (n div 10)) @ [digit_char (n mod 10)]"
    using str_nat_snoc [of m] str_nat_snoc [of n] by simp
  then have digits: "digit_char (m mod 10) = digit_char (n mod 10)"
    and front: "(if m < 10 then [] else str_nat (m div 10)) = (if n < 10 then [] else str_nat (n div 10))"
    by simp_all
  from digits have mod_eq: "m mod 10 = n mod 10"
    by (rule digit_char_inj [rotated 2]) simp_all
  show ?case
  proof (cases "m < 10")
    case True
    with front have "n < 10"
      using str_nat_nonempty [of "n div 10"] by (auto split: if_splits)
    with True mod_eq show ?thesis by simp
  next
    case False
    with front have n: "\<not> n < 10" and "str_nat (m div 10) = str_nat (n div 10)"
      using str_nat_nonempty [of "m div 10"] by (auto split: if_splits)
    with False "1.IH" have "m div 10 = n div 10" by simp
    with mod_eq show ?thesis
      by (metis div_mult_mod_eq)
  qed
qed

lemma aug_name_inj: "aug_name b i = aug_name b j \<Longrightarrow> i = j"
  by (auto simp: aug_name_def dest: str_nat_inj)

lemma distinct_aug_names: "distinct ks \<Longrightarrow> distinct (map (aug_name b) ks)"
  by (simp add: distinct_map inj_on_def) (blast dest: aug_name_inj)

section \<open>Filesystem primitives\<close>

lemma lookup_Nil [simp]: "lookup d [] = Some Dir"
  by (simp add: lookup_def)

lemma lookup_store:
  "lookup (store d q n) r = (if r = [] then Some Dir else if r = q then Some n else lookup d r)"
  by (simp add: lookup_def store_def update_conv')

lemma denied_store [simp]: "denied (store d q n) = denied d"
  by (simp add: store_def)

lemma os_mkdir_Inr:
  "os_mkdir d q = Inr d' \<Longrightarrow> d' = store d q Dir \<and> lookup d q = None \<and> q \<noteq> []"
  by (auto simp: os_mkdir_def lookup_def split: option.splits node.splits if_splits)

lemma grown_refl: "grown q d d"
  by (simp add: grown_def)

lemma grown_store: "lookup d q = None \<Longrightarrow> grown q d (store d q Dir)"
  by (auto simp: grown_def lookup_store)

lemma grown_trans: "grown q' d d1 \<Longrightarrow> grown q d1 d2 \<Longrightarrow> prefix q' q \<Longrightarrow> grown q d d2"
  unfolding grown_def
  by (metis prefix_order.order_trans)

lemma mkdir_leaf_grown:
  "mkdir_leaf q d = Inr d' \<Longrightarrow> grown q d d' \<and> is_dir d' q"
  "mkdir_leaf q d = Inl (e, d') \<Longrightarrow> d' = d"
  by (auto simp: mkdir_leaf_def is_dir_def lookup_store grown_refl grown_store
      split: sum.splits if_splits dest!: os_mkdir_Inr)

lemma mkdir_parents_grown:
  "(mkdir_parents q d = Inr d' \<longrightarrow> grown q d d' \<and> is_dir d' q) \<and>
   (mkdir_parents q d = Inl (e, d') \<longrightarrow> grown q d d')"
proof (induction q d arbitrary: d' e rule: mkdir_parents.induct)
  case (1 q d)
  show ?case
  proof (cases "os_mkdir d q")
    case (Inr d1)
    then show ?thesis
      using os_mkdir_Inr [OF Inr]
      by (subst (1 2) mkdir_parents.simps) (auto simp: grown_store is_dir_def lookup_store)
  next
    case (Inl err)
    show ?thesis
    proof (cases "err = FileNotFoundError \<and> q \<noteq> []")
      case False
      with Inl show ?thesis
        by (subst (1 2) mkdir_parents.simps) (auto simp: grown_refl)
    next
      case True
      note IH = "1.IH" [OF Inl conjunct1 [OF True] conjunct2 [OF True]]
      have pfx: "prefix (butlast q) q"
        by (simp add: prefix_def) (metis append_butlast_last_id True)
      show ?thesis
      proof (cases "mkdir_parents (butlast q) d")
        case (Inl failure)
        obtain e1 d1 where f: "failure = (e1, d1)" by (cases failure)
        with Inl IH [where e = e1 and d' = d1] have "grown (butlast q) d d1" by simp
        then have "grown q d d1"
          using grown_trans [OF _ grown_refl pfx] by blast
        with Inl f \<open>os_mkdir d q = Inl err\<close> True show ?thesis
          by (subst (1 2) mkdir_parents.simps) auto
      next
        case (Inr d1)
        with IH have g1: "grown (butlast q) d d1" by simp
        with Inr \<open>os_mkdir d q = Inl err\<close> True show ?thesis
          by (subst (1 2) mkdir_parents.simps)
             (auto dest!: mkdir_leaf_grown intro: grown_trans [OF g1 _ pfx] grown_trans [OF g1 grown_refl pfx])
      qed
    qed
  qed
qed

lemma sf_write_Inr:
  "sf_write d q w sr = Inr d' \<Longrightarrow>
     d' = store d q (File (Audio sr w)) \<and> q \<noteq> [] \<and> lookup d q \<noteq> Some Dir"
  by (auto simp: sf_write_def lookup_def split: option.splits node.splits if_splits)

section \<open>The loop over the augmentations\<close>

lemma touched_refl: "touched sr q ts d d"
  by (simp add: touched_def)

lemma grown_touched: "grown q d d' \<Longrightarrow> touched sr q ts d d'"
  by (auto simp: grown_def touched_def)

lemma touched_write:
  "q \<noteq> [] \<Longrightarrow> touched sr q0 [q] d (store d q (File (Audio sr w)))"
  by (auto simp: touched_def lookup_store)

lemma touched_trans:
  assumes a: "touched sr q ts d d1" and b: "touched sr q ts' d1 d2"
  shows "touched sr q (ts @ ts') d d2"
  unfolding touched_def
proof (intro conjI allI)
  show "denied d2 = denied d"
    using a b by (simp add: touched_def)
next
  fix r
  from a have A: "lookup d1 r = lookup d r \<or>
          (lookup d r = None \<and> lookup d1 r = Some Dir \<and> prefix r q) \<or>
          (r \<in> set ts \<and> (\<exists>w. lookup d1 r = Some (File (Audio sr w))))"
    by (simp add: touched_def)
  from b have B: "lookup d2 r = lookup d1 r \<or>
          (lookup d1 r = None \<and> lookup d2 r = Some Dir \<and> prefix r q) \<or>
          (r \<in> set ts' \<and> (\<exists>w. lookup d2 r = Some (File (Audio sr w))))"
    by (simp add: touched_def)
  from A B show "lookup d2 r = lookup d r \<or>
          (lookup d r = None \<and> lookup d2 r = Some Dir \<and> prefix r q) \<or>
          (r \<in> set (ts @ ts') \<and> (\<exists>w. lookup d2 r = Some (File (Audio sr w))))"
    by (elim disjE conjE exE) simp_all
qed

lemma augment_loop_Cons:
  "augment_loop L y sr oroot sub b (i # ks) s =
     (case mkdir_parents (oroot @ sub) (disk s) of
        Inl (e, d1) \<Rightarrow> Raised e (s\<lparr>gen := snd (compose_call L augmenter sr (y, gen s)), disk := d1\<rparr>)
      | Inr d1 \<Rightarrow>
          (case sf_write d1 (oroot @ sub @ [aug_name b i]) (fst (compose_call L augmenter sr (y, gen s))) sr of
             Inl e \<Rightarrow> Raised e (s\<lparr>gen := snd (compose_call L augmenter sr (y, gen s)), disk := d1\<rparr>)
           | Inr d2 \<Rightarrow>
               augment_loop L y sr oroot sub b ks
                 (print (''Saved: '' @ str_path (oroot @ sub @ [aug_name b i]))
                    (s\<lparr>gen := snd (compose_call L augmenter sr (y, gen s)), disk := d2\<rparr>))))"
  by (simp add: Let_def split: prod.splits sum.splits)

declare augment_loop.simps(2) [simp del]

lemma disk_print [simp]: "disk (print line s) = disk s"
  and gen_print [simp]: "gen (print line s) = gen s"
  and stdout_print [simp]: "stdout (print line s) = stdout s @ [line]"
  by (simp_all add: print_def)

lemma augment_loop_touched:
  "touched sr (oroot @ sub) (map (\<lambda>i. oroot @ sub @ [aug_name b i]) ks)
     (disk s) (disk (final (augment_loop L y sr oroot sub b ks s)))"
proof (induction ks arbitrary: s)
  case Nil
  show ?case by (simp add: touched_refl)
next
  case (Cons i ks)
  let ?q = "oroot @ sub"
  let ?t = "oroot @ sub @ [aug_name b i]"
  let ?ts = "map (\<lambda>i. oroot @ sub @ [aug_name b i]) ks"
  let ?g = "snd (compose_call L augmenter sr (y, gen s))"
  let ?a = "fst (compose_call L augmenter sr (y, gen s))"
  show ?case
  proof (cases "mkdir_parents ?q (disk s)")
    case (Inl failure)
    obtain e d1 where f: "failure = (e, d1)" by (cases failure)
    with Inl have "grown ?q (disk s) d1"
      using mkdir_parents_grown [of ?q "disk s" d1 e] by simp
    then have "touched sr ?q (?t # ?ts) (disk s) d1"
      by (rule grown_touched)
    then show ?thesis
      by (simp add: augment_loop_Cons Inl f)
  next
    case mk: (Inr d1)
    then have "grown ?q (disk s) d1"
      using mkdir_parents_grown [of ?q "disk s" d1] by simp
    then have g1: "touched sr ?q [] (disk s) d1"
      by (rule grown_touched)
    show ?thesis
    proof (cases "sf_write d1 ?t ?a sr")
      case (Inl e)
      from g1 touched_refl [of sr ?q "?t # ?ts" d1]
      have "touched sr ?q ([] @ (?t # ?ts)) (disk s) d1"
        by (rule touched_trans)
      then show ?thesis
        by (simp add: augment_loop_Cons mk Inl)
    next
      case (Inr d2)
      then have "d2 = store d1 ?t (File (Audio sr ?a))"
        by (simp add: sf_write_Inr)
      then have "touched sr ?q [?t] d1 d2"
        by (simp add: touched_write)
      with g1 have g2: "touched sr ?q ([] @ [?t]) (disk s) d2"
        by (rule touched_trans)
      let ?s2 = "print (''Saved: '' @ str_path ?t) (s\<lparr>gen := ?g, disk := d2\<rparr>)"
      have "touched sr ?q ?ts (disk ?s2) (disk (final (augment_loop L y sr oroot sub b ks ?s2)))"
        by (rule Cons.IH)
      then have "touched sr ?q ?ts d2 (disk (final (augment_loop L y sr oroot sub b ks ?s2)))"
        by simp
      with g2 have "touched sr ?q (([] @ [?t]) @ ?ts) (disk s) (disk (final (augment_loop L y sr oroot sub b ks ?s2)))"
        by (rule touched_trans)
      then show ?thesis
        by (simp add: augment_loop_Cons mk Inr)
    qed
  qed
qed

lemma augment_loop_Returned:
  "augment_loop L y sr oroot sub b ks s = Returned s' \<Longrightarrow>
     stdout s' = stdout s @ map (\<lambda>i. ''Saved: '' @ str_path (oroot @ sub @ [aug_name b i])) ks \<and>
     gen s' = gen_iter L y sr (length ks) (gen s)"
proof (induction ks arbitrary: s)
  case Nil
  then show ?case by simp
next
  case (Cons i ks)
  from Cons.prems obtain d2 where
    "augment_loop L y sr oroot sub b ks
       (print (''Saved: '' @ str_path (oroot @ sub @ [aug_name b i]))
          (s\<lparr>gen := snd (compose_call L augmenter sr (y, gen s)), disk := d2\<rparr>)) = Returned s'"
    by (auto simp: augment_loop_Cons split: sum.splits prod.splits)
  from Cons.IH [OF this] show ?case by simp
qed

lemma prefix_pair: "prefix r [a, b] \<longleftrightarrow> r = [] \<or> r = [a] \<or> r = [a, b]"
  by (auto simp: prefix_Cons)

lemma not_prefix_snoc: "\<not> prefix (q @ [x]) q"
  by (auto dest: prefix_length_le)

lemma augment_loop_contents:
  "augment_loop L y sr oroot sub b ks s = Returned s' \<Longrightarrow> distinct ks \<Longrightarrow> k < length ks \<Longrightarrow>
     lookup (disk s') (oroot @ sub @ [aug_name b (ks ! k)]) =
       Some (File (Audio sr (fst (compose_call L augmenter sr (y, gen_iter L y sr k (gen s))))))"
proof (induction ks arbitrary: s k)
  case Nil
  then show ?case by simp
next
  case (Cons i ks)
  let ?t = "oroot @ sub @ [aug_name b i]"
  let ?g = "snd (compose_call L augmenter sr (y, gen s))"
  let ?a = "fst (compose_call L augmenter sr (y, gen s))"
  from Cons.prems(1) obtain d1 d2 where
    wr: "sf_write d1 ?t ?a sr = Inr d2" and
    rest: "augment_loop L y sr oroot sub b ks
       (print (''Saved: '' @ str_path ?t) (s\<lparr>gen := ?g, disk := d2\<rparr>)) = Returned s'"
    by (auto simp: augment_loop_Cons split: sum.splits prod.splits)
  let ?s2 = "print (''Saved: '' @ str_path ?t) (s\<lparr>gen := ?g, disk := d2\<rparr>)"
  show ?case
  proof (cases k)
    case 0
    from wr have here: "lookup d2 ?t = Some (File (Audio sr ?a))"
      by (auto dest!: sf_write_Inr simp: lookup_store)
    have "touched sr (oroot @ sub) (map (\<lambda>i. oroot @ sub @ [aug_name b i]) ks)
            (disk ?s2) (disk (final (augment_loop L y sr oroot sub b ks ?s2)))"
      by (rule augment_loop_touched)
    with rest have "touched sr (oroot @ sub) (map (\<lambda>i. oroot @ sub @ [aug_name b i]) ks) d2 (disk s')"
      by simp
    then have "lookup (disk s') ?t = lookup d2 ?t \<or>
          (lookup d2 ?t = None \<and> lookup (disk s') ?t = Some Dir \<and> prefix ?t (oroot @ sub)) \<or>
          (?t \<in> set (map (\<lambda>i. oroot @ sub @ [aug_name b i]) ks) \<and>
           (\<exists>w. lookup (disk s') ?t = Some (File (Audio sr w))))"
      unfolding touched_def by blast
    moreover have "?t \<notin> set (map (\<lambda>i. oroot @ sub @ [aug_name b i]) ks)"
      using Cons.prems(2) by (auto dest: aug_name_inj)
    ultimately have "lookup (disk s') ?t = lookup d2 ?t"
      using here by auto
    with here 0 show ?thesis by simp
  next
    case (Suc k')
    with Cons.prems have "lookup (disk s') (oroot @ sub @ [aug_name b (ks ! k')]) =
       Some (File (Audio sr (fst (compose_call L augmenter sr (y, gen_iter L y sr k' (gen ?s2))))))"
      by (intro Cons.IH [OF rest]) simp_all
    with Suc show ?thesis by simp
  qed
qed

lemma mkdir_parents_ready:
  "(\<forall>r. prefix r q \<longrightarrow> (lookup d r = None \<or> lookup d r = Some Dir) \<and> r \<notin> set (denied d)) \<Longrightarrow>
     \<exists>d'. mkdir_parents q d = Inr d'"
proof (induction q d rule: mkdir_parents.induct)
  case (1 q d)
  show ?case
  proof (cases "os_mkdir d q")
    case (Inr d1)
    then show ?thesis
      by (subst mkdir_parents.simps) simp
  next
    case (Inl err)
    have self: "lookup d q = None \<or> lookup d q = Some Dir"
      using "1.prems" by simp
    show ?thesis
    proof (cases "lookup d q")
      case (Some n)
      with self have "is_dir d q" by (simp add: is_dir_def)
      moreover from Some Inl have "err = FileExistsError"
        by (simp add: os_mkdir_def)
      ultimately show ?thesis using Inl
        by (subst mkdir_parents.simps) simp
    next
      case None
      then have ne: "q \<noteq> []" by auto
      then have pfx: "prefix (butlast q) q"
        by (simp add: prefix_def) (metis append_butlast_last_id)
      with "1.prems" have par: "lookup d (butlast q) = None \<or> lookup d (butlast q) = Some Dir"
        and nd: "butlast q \<notin> set (denied d)" by simp_all
      from Inl None par nd have err: "err = FileNotFoundError" and parN: "lookup d (butlast q) = None"
        by (auto simp: os_mkdir_def split: option.splits node.splits if_splits)
      have "\<forall>r. prefix r (butlast q) \<longrightarrow> (lookup d r = None \<or> lookup d r = Some Dir) \<and> r \<notin> set (denied d)"
        using "1.prems" pfx by (meson prefix_order.order_trans)
      from "1.IH" [OF Inl err ne this] obtain d1 where d1: "mkdir_parents (butlast q) d = Inr d1"
        by blast
      then have g: "grown (butlast q) d d1" and dir: "is_dir d1 (butlast q)"
        using mkdir_parents_grown [of "butlast q" d d1] by simp_all
      have "\<not> prefix q (butlast q)"
        using ne by (metis append_butlast_last_id not_prefix_snoc)
      with g None have "lookup d1 q = None"
        unfolding grown_def by metis
      moreover from g nd have "butlast q \<notin> set (denied d1)"
        by (simp add: grown_def)
      ultimately have "os_mkdir d1 q = Inr (store d1 q Dir)"
        using dir by (simp add: os_mkdir_def is_dir_def)
      then have "mkdir_leaf q d1 = Inr (store d1 q Dir)"
        by (simp add: mkdir_leaf_def)
      with Inl err ne d1 show ?thesis
        by (subst mkdir_parents.simps) simp
    qed
  qed
qed

lemma augment_loop_ready:
  "ready (oroot @ sub) (map (\<lambda>i. oroot @ sub @ [aug_name b i]) ks) (disk s) \<Longrightarrow>
     \<exists>s'. augment_loop L y sr oroot sub b ks s = Returned s'"
proof (induction ks arbitrary: s)
  case Nil
  show ?case by simp
next
  case (Cons i ks)
  let ?q = "oroot @ sub"
  let ?t = "oroot @ sub @ [aug_name b i]"
  let ?ts = "map (\<lambda>i. oroot @ sub @ [aug_name b i]) ks"
  let ?g = "snd (compose_call L augmenter sr (y, gen s))"
  let ?a = "fst (compose_call L augmenter sr (y, gen s))"
  from Cons.prems have dirs:
    "\<forall>r. prefix r ?q \<longrightarrow> (lookup (disk s) r = None \<or> lookup (disk s) r = Some Dir) \<and> r \<notin> set (denied (disk s))"
    and tgts: "\<forall>t \<in> set (?t # ?ts). (lookup (disk s) t = None \<or> (\<exists>c. lookup (disk s) t = Some (File c))) \<and> t \<notin> set (denied (disk s))"
    by (simp_all add: ready_def)
  from mkdir_parents_ready [OF dirs] obtain d1 where mk: "mkdir_parents ?q (disk s) = Inr d1"
    by blast
  then have g: "grown ?q (disk s) d1" and dir: "is_dir d1 ?q"
    using mkdir_parents_grown [of ?q "disk s" d1] by simp_all
  have same: "lookup d1 r = lookup (disk s) r" if "\<not> prefix r ?q" for r
    using g that unfolding grown_def by metis
  have den: "denied d1 = denied (disk s)"
    using g by (simp add: grown_def)
  have np: "\<not> prefix (oroot @ sub @ [x]) ?q" for x
    using not_prefix_snoc [of ?q x] by simp
  have t1: "lookup d1 ?t = None \<or> (\<exists>c. lookup d1 ?t = Some (File c))" and tden: "?t \<notin> set (denied d1)"
    using tgts same [OF np] den by simp_all
  have "butlast ?t = ?q"
    by (simp add: butlast_append)
  with t1 tden dir dirs den have wr: "sf_write d1 ?t ?a sr = Inr (store d1 ?t (File (Audio sr ?a)))"
    by (auto simp: sf_write_def is_dir_def)
  let ?d2 = "store d1 ?t (File (Audio sr ?a))"
  let ?s2 = "print (''Saved: '' @ str_path ?t) (s\<lparr>gen := ?g, disk := ?d2\<rparr>)"
  have "ready ?q ?ts (disk ?s2)"
    unfolding ready_def
  proof (intro conjI allI impI ballI)
    fix r assume "prefix r ?q"
    then have "r \<noteq> ?t" using np by auto
    then have "lookup ?d2 r = lookup d1 r" by (simp add: lookup_store)
    moreover have "lookup d1 r = lookup (disk s) r \<or> lookup d1 r = Some Dir"
      using g unfolding grown_def by metis
    ultimately show "lookup (disk ?s2) r = None \<or> lookup (disk ?s2) r = Some Dir"
      using dirs \<open>prefix r ?q\<close> by auto
    show "r \<notin> set (denied (disk ?s2))"
      using dirs \<open>prefix r ?q\<close> den by simp
  next
    fix t assume t: "t \<in> set ?ts"
    then have "\<not> prefix t ?q" using np by auto
    then have "lookup d1 t = lookup (disk s) t" by (rule same)
    then show "lookup (disk ?s2) t = None \<or> (\<exists>c. lookup (disk ?s2) t = Some (File c))"
      using tgts t by (auto simp: lookup_store)
    show "t \<notin> set (denied (disk ?s2))"
      using tgts t den by auto
  qed
  from Cons.IH [OF this] show ?case
    by (simp add: augment_loop_Cons mk wr)
qed

lemma aug_names_spec: "map (aug_name b) [0..<n] = spec_output_names b n"
proof -
  have "map (aug_name b) [0..<n] = map ((\<lambda>i. b @ ''_aug'' @ str_nat i @ ''.wav'') \<circ> Suc) [0..<n]"
    by (simp add: aug_name_def comp_def)
  also have "\<dots> = map (\<lambda>i. b @ ''_aug'' @ str_nat i @ ''.wav'') (map Suc [0..<n])"
    by simp
  also have "map Suc [0..<n] = [1..<Suc n]"
    by (simp add: map_Suc_upt)
  finally show ?thesis
    by (simp add: spec_output_names_def)
qed

lemma augment_and_save_Returned:
  assumes "augment_and_save L file_path sr input_root output_root s = Returned s'"
  obtains rel y where
    "relative_to file_path input_root = Inr rel"
    "librosa_load L (disk s) file_path sr = Inr (y, sr)"
    "augment_loop L y sr output_root (parent rel) (stem rel) [0..<NUM_AUGMENTATIONS] s = Returned s'"
  using assms
  by (auto simp: augment_and_save_def Let_def librosa_load_def
      split: sum.splits prod.splits option.splits node.splits content.splits if_splits)

section \<open>The loop over the files\<close>

lemma run_effect_refl: "run_effect ir orr fs n d d"
  by (simp add: run_effect_def)

lemma run_effect_trans:
  assumes a: "run_effect ir orr fs n d d1" and b: "run_effect ir orr fs' n d1 d2"
  shows "run_effect ir orr (fs @ fs') n d d2"
  unfolding run_effect_def
proof (intro conjI allI)
  show "denied d2 = denied d"
    using a b by (simp add: run_effect_def)
next
  fix r
  let ?D = "\<lambda>F. \<exists>f \<in> set F. \<exists>rel. relative_to f ir = Inr rel \<and> prefix r (orr @ parent rel)"
  let ?T = "\<lambda>F x. \<exists>f \<in> set F. \<exists>rel. \<exists>i < n. relative_to f ir = Inr rel \<and>
              r = orr @ parent rel @ [aug_name (stem rel) i] \<and>
              (\<exists>w. lookup x r = Some (File (Audio SAMPLE_RATE w)))"
  from a have A: "lookup d1 r = lookup d r \<or> (lookup d r = None \<and> lookup d1 r = Some Dir \<and> ?D fs) \<or> ?T fs d1"
    unfolding run_effect_def by blast
  from b have B: "lookup d2 r = lookup d1 r \<or> (lookup d1 r = None \<and> lookup d2 r = Some Dir \<and> ?D fs') \<or> ?T fs' d2"
    unfolding run_effect_def by blast
  have mono: "?D F \<Longrightarrow> ?D (fs @ fs')" "?T F x \<Longrightarrow> ?T (fs @ fs') x" if "set F \<subseteq> set (fs @ fs')" for F x
    using that by blast+
  have s1: "set fs \<subseteq> set (fs @ fs')" and s2: "set fs' \<subseteq> set (fs @ fs')" by auto
  show "lookup d2 r = lookup d r \<or> (lookup d r = None \<and> lookup d2 r = Some Dir \<and> ?D (fs @ fs')) \<or> ?T (fs @ fs') d2"
  proof (cases "lookup d2 r = lookup d1 r")
    case True
    from A show ?thesis
    proof (elim disjE)
      assume "lookup d1 r = lookup d r" with True show ?thesis by simp
    next
      assume "lookup d r = None \<and> lookup d1 r = Some Dir \<and> ?D fs"
      with True mono(1) [OF s1] show ?thesis by simp
    next
      assume "?T fs d1"
      then have "?T fs d2" using True by simp
      with mono(2) [OF s1] show ?thesis by blast
    qed
  next
    case False
    with B have "(lookup d1 r = None \<and> lookup d2 r = Some Dir \<and> ?D fs') \<or> ?T fs' d2" by blast
    then show ?thesis
    proof
      assume "?T fs' d2"
      with mono(2) [OF s2] show ?thesis by blast
    next
      assume n: "lookup d1 r = None \<and> lookup d2 r = Some Dir \<and> ?D fs'"
      with A have "lookup d1 r = lookup d r" by auto
      with n mono(1) [OF s2] show ?thesis by simp
    qed
  qed
qed

lemma augment_loop_append:
  "augment_loop L y sr oroot sub b (ks @ ks') s =
     (case augment_loop L y sr oroot sub b ks s of
        Raised e s' \<Rightarrow> Raised e s'
      | Returned s1 \<Rightarrow> augment_loop L y sr oroot sub b ks' s1)"
  by (induction ks arbitrary: s) (simp_all add: augment_loop_Cons split: sum.splits prod.splits)

lemma for_files_append:
  "for_files L (pre @ post) ir orr s =
     (case for_files L pre ir orr s of
        Raised e s' \<Rightarrow> Raised e s'
      | Returned s1 \<Rightarrow> for_files L post ir orr s1)"
  by (induction pre arbitrary: s) (simp_all split: outcome.splits)

lemma state_after_full:
  "state_after L pre f NUM_AUGMENTATIONS ir orr s = for_files L (pre @ [f]) ir orr s"
  by (simp add: state_after_def for_files_append augment_and_save_def Let_def
      split: outcome.splits sum.splits prod.splits)

lemma augment_loop_run_effect:
  assumes ks: "\<forall>i \<in> set ks. i < n" and rel: "relative_to f ir = Inr rel"
  shows "run_effect ir orr [f] n (disk s)
           (disk (final (augment_loop L y SAMPLE_RATE orr (parent rel) (stem rel) ks s)))"
proof -
  let ?d' = "disk (final (augment_loop L y SAMPLE_RATE orr (parent rel) (stem rel) ks s))"
  have t: "touched SAMPLE_RATE (orr @ parent rel)
             (map (\<lambda>i. orr @ parent rel @ [aug_name (stem rel) i]) ks) (disk s) ?d'"
    by (rule augment_loop_touched)
  show ?thesis
    unfolding run_effect_def
  proof (intro conjI allI)
    show "denied ?d' = denied (disk s)"
      using t by (simp add: touched_def)
  next
    fix r
    from t have "lookup ?d' r = lookup (disk s) r \<or>
          (lookup (disk s) r = None \<and> lookup ?d' r = Some Dir \<and> prefix r (orr @ parent rel)) \<or>
          (r \<in> set (map (\<lambda>i. orr @ parent rel @ [aug_name (stem rel) i]) ks) \<and>
           (\<exists>w. lookup ?d' r = Some (File (Audio SAMPLE_RATE w))))"
      unfolding touched_def by blast
    then show "lookup ?d' r = lookup (disk s) r \<or>
          (lookup (disk s) r = None \<and> lookup ?d' r = Some Dir \<and>
           (\<exists>f \<in> set [f]. \<exists>rel. relative_to f ir = Inr rel \<and> prefix r (orr @ parent rel))) \<or>
          (\<exists>f \<in> set [f]. \<exists>rel. \<exists>i < n.
              relative_to f ir = Inr rel \<and>
              r = orr @ parent rel @ [aug_name (stem rel) i] \<and>
              (\<exists>w. lookup ?d' r = Some (File (Audio SAMPLE_RATE w))))"
      using ks rel by auto
  qed
qed

lemma augment_and_save_run_effect:
  "run_effect ir orr [f] NUM_AUGMENTATIONS (disk s)
     (disk (final (augment_and_save L f SAMPLE_RATE ir orr s)))"
proof (cases "relative_to f ir")
  case (Inl e)
  then show ?thesis
    by (simp add: augment_and_save_def run_effect_refl)
next
  case (Inr rel)
  show ?thesis
  proof (cases "librosa_load L (disk s) f SAMPLE_RATE")
    case (Inl e)
    with Inr show ?thesis
      by (simp add: augment_and_save_def run_effect_refl)
  next
    case load: (Inr loaded)
    obtain y sr where "loaded = (y, sr)" by (cases loaded)
    with Inr load augment_loop_run_effect [of "[0..<NUM_AUGMENTATIONS]" NUM_AUGMENTATIONS f ir rel orr s L y]
    show ?thesis
      by (simp add: augment_and_save_def)
  qed
qed

lemma for_files_run_effect:
  "run_effect ir orr files NUM_AUGMENTATIONS (disk s) (disk (final (for_files L files ir orr s)))"
proof (induction files arbitrary: s)
  case Nil
  show ?case by (simp add: run_effect_refl)
next
  case (Cons f files)
  have one: "run_effect ir orr [f] NUM_AUGMENTATIONS (disk s)
     (disk (final (augment_and_save L f SAMPLE_RATE ir orr s)))"
    by (rule augment_and_save_run_effect)
  show ?case
  proof (cases "augment_and_save L f SAMPLE_RATE ir orr s")
    case (Raised e s')
    with one have "run_effect ir orr [f] NUM_AUGMENTATIONS (disk s) (disk s')" by simp
    from run_effect_trans [OF this run_effect_refl [of ir orr files]] Raised
    show ?thesis by simp
  next
    case (Returned s')
    with one have "run_effect ir orr [f] NUM_AUGMENTATIONS (disk s) (disk s')" by simp
    from run_effect_trans [OF this Cons.IH [of s']] Returned
    show ?thesis by simp
  qed
qed


lemma run_effect_files:
  assumes "run_effect ir orr files NUM_AUGMENTATIONS d d'"
    and "lookup d' r = Some (File c)" and "lookup d' r \<noteq> lookup d r"
  shows "(\<exists>w. c = Audio SAMPLE_RATE w) \<and>
    (\<exists>f \<in> set files. \<exists>rel. relative_to f ir = Inr rel \<and> butlast r = orr @ parent rel \<and>
        last r \<in> set (spec_output_names (stem rel) NUM_AUGMENTATIONS))"
proof -
  from assms(1) have "lookup d' r = lookup d r \<or>
          (lookup d r = None \<and> lookup d' r = Some Dir \<and>
           (\<exists>f \<in> set files. \<exists>rel. relative_to f ir = Inr rel \<and> prefix r (orr @ parent rel))) \<or>
          (\<exists>f \<in> set files. \<exists>rel. \<exists>i < NUM_AUGMENTATIONS.
              relative_to f ir = Inr rel \<and>
              r = orr @ parent rel @ [aug_name (stem rel) i] \<and>
              (\<exists>w. lookup d' r = Some (File (Audio SAMPLE_RATE w))))"
    unfolding run_effect_def by blast
  with assms(2,3) obtain f rel i w where f: "f \<in> set files" and i: "i < NUM_AUGMENTATIONS"
    and rel: "relative_to f ir = Inr rel" and r: "r = orr @ parent rel @ [aug_name (stem rel) i]"
    and w: "lookup d' r = Some (File (Audio SAMPLE_RATE w))"
    by auto
  from i have "aug_name (stem rel) i \<in> set (map (aug_name (stem rel)) [0..<NUM_AUGMENTATIONS])"
    by simp
  then have "aug_name (stem rel) i \<in> set (spec_output_names (stem rel) NUM_AUGMENTATIONS)"
    by (simp only: aug_names_spec)
  moreover from r have "butlast r = orr @ parent rel" "last r = aug_name (stem rel) i"
    by (simp_all add: butlast_append)
  ultimately show ?thesis
    using f rel w assms(2) by auto
qed

section \<open>Evaluating the concrete inputs\<close>

lemma quiet_chain: "compose_call quiet_lib augmenter sr (y, g) = (y, g\<lparr>pos := pos g + 4\<rparr>)"
  by (simp add: compose_call_def augmenter_def transform_call_def random_random_def quiet_lib_def)

lemma upt3: "[0..<NUM_AUGMENTATIONS] = [0, 1, 2]"
  by (simp add: NUM_AUGMENTATIONS_def upt_rec)

lemma quiet_resample: "resample quiet_lib r sr w = w"
  by (simp add: quiet_lib_def)

lemma names3: "aug_name b 0 = b @ ''_aug1.wav''" "aug_name b (Suc 0) = b @ ''_aug2.wav''" "aug_name b 2 = b @ ''_aug3.wav''"
  by (simp_all add: aug_name_def str_nat.simps digit_char_def)

lemma stem_yes: "stem [''red'', ''yes.wav''] = ''yes''"
  by (simp add: stem_def name_of_def rfind_def)

lemma mk1: "mkdir_parents [''out'', ''red''] tiny_disk = Inr (tiny_disk\<lparr>nodes := nodes tiny_disk @ [([''out''], Dir), ([''out'', ''red''], Dir)]\<rparr>)"
  by (simp add: mkdir_parents.simps mkdir_leaf_def os_mkdir_def lookup_def store_def tiny_disk_def is_dir_def)


lemma tiny_run:
  "augment_and_save quiet_lib [''in'', ''red'', ''yes.wav''] 16000 [''in''] [''out''] tiny_state
     = Returned tiny_after"
  by (simp add: augment_and_save_def relative_to_def parent_def stem_yes librosa_load_def
      lookup_def tiny_state_def tiny_disk_def tiny_after_def upt3 augment_loop_Cons quiet_chain
      names3 mkdir_parents.simps mkdir_leaf_def os_mkdir_def is_dir_def store_def sf_write_def
      print_def str_path_def random_seed_def RANDOM_SEED_def quiet_resample Let_def)

lemma Path_INPUT_DIR: "Path INPUT_DIR = [''workspace'', ''data'', ''raw_audio'']"
  by (simp add: Path_def INPUT_DIR_def)

lemma Path_OUTPUT_DIR: "Path OUTPUT_DIR = [''workspace'', ''data'', ''augmented_audio'']"
  by (simp add: Path_def OUTPUT_DIR_def)

lemma rglob_demo:
  "rglob_wav demo_disk [''workspace'', ''data'', ''raw_audio''] =
     [[''workspace'', ''data'', ''raw_audio'', ''red'', ''yes.wav''],
      [''workspace'', ''data'', ''raw_audio'', ''blue'', ''no.wav'']]"
  by (simp add: rglob_wav_def demo_disk_def visible_def fnmatch_wav_def lookup_def upt_conv_Cons)

lemma stem_no: "stem [''blue'', ''no.wav''] = ''no''"
  by (simp add: stem_def name_of_def rfind_def)

lemma found_line_2: "found_line (Suc (Suc 0)) = ''Found 2 audio files in /workspace/data/raw_audio''"
  by (simp add: found_line_def str_nat.simps digit_char_def INPUT_DIR_def)

lemmas run_eval =
  augment_and_save_def relative_to_def parent_def librosa_load_def lookup_def upt3
  augment_loop_Cons quiet_chain names3 mkdir_parents.simps mkdir_leaf_def os_mkdir_def
  is_dir_def store_def sf_write_def print_def str_path_def quiet_resample Let_def

lemma demo_run: "notebook quiet_lib demo_disk = Returned demo_after"
  by (simp add: notebook_def driver_def Path_INPUT_DIR Path_OUTPUT_DIR rglob_demo Let_def)
     (simp add: SAMPLE_RATE_def run_eval found_line_2 stem_yes stem_no demo_disk_def demo_after_def
        random_seed_def RANDOM_SEED_def)



lemma librosa_load_Inr:
  "librosa_load L d f sr = Inr (y, sr') \<Longrightarrow>
     sr' = sr \<and> (\<exists>r raw. lookup d f = Some (File (Audio r raw)) \<and> y = resample L r sr raw)"
  by (auto simp: librosa_load_def split: option.splits node.splits content.splits if_splits)

lemma augment_and_save_touched:
  "\<exists>q ts. touched sr q ts (disk s) (disk (final (augment_and_save L f sr ir orr s)))"
proof (cases "relative_to f ir")
  case (Inl e)
  then show ?thesis
    by (auto simp: augment_and_save_def intro: touched_refl)
next
  case (Inr rel)
  show ?thesis
  proof (cases "librosa_load L (disk s) f sr")
    case (Inl e)
    with Inr show ?thesis
      by (auto simp: augment_and_save_def intro: touched_refl)
  next
    case load: (Inr loaded)
    obtain y sr' where "loaded = (y, sr')" by (cases loaded)
    with Inr load
      augment_loop_touched [of sr orr "parent rel" "stem rel" "[0..<NUM_AUGMENTATIONS]" s L y]
    show ?thesis
      by (auto simp: augment_and_save_def)
  qed
qed

lemma disk_final_driver:
  "disk (final (driver L s)) =
     disk (final (for_files L (rglob_wav (disk s) (Path INPUT_DIR)) (Path INPUT_DIR) (Path OUTPUT_DIR)
       (print (found_line (length (rglob_wav (disk s) (Path INPUT_DIR)))) s)))"
  by (simp add: driver_def Let_def split: outcome.splits)

lemma loud_chain:
  "compose_call loud_lib augmenter sr (y, g) =
     (map (\<lambda>x. x + - (1 / 10)) (map (\<lambda>x. x + - 1) (map (\<lambda>x. x + 19 / 20) (map (\<lambda>x. x + 9 / 2000) y))),
      g\<lparr>pos := pos g + 8\<rparr>)"
  by (simp add: compose_call_def augmenter_def transform_call_def random_random_def
      random_uniform_def loud_lib_def)

lemma loud_resample: "resample loud_lib r sr w = w"
  by (simp add: loud_lib_def)

lemmas loud_eval =
  augment_and_save_def relative_to_def parent_def librosa_load_def lookup_def upt3
  augment_loop_Cons loud_chain names3 mkdir_parents.simps mkdir_leaf_def os_mkdir_def
  is_dir_def store_def sf_write_def print_def str_path_def loud_resample Let_def

lemma tiny_loud_run:
  "augment_and_save loud_lib [''in'', ''red'', ''yes.wav''] 16000 [''in''] [''out''] tiny_state
     = Returned tiny_loud_after"
  by (simp add: loud_eval stem_yes tiny_state_def tiny_disk_def tiny_loud_after_def
      random_seed_def RANDOM_SEED_def)

lemma touched_exists:
  assumes "touched sr q ts d d'" and "lookup d' r \<noteq> None"
  shows "lookup d r \<noteq> None \<or> prefix r q \<or> r \<in> set ts"
proof -
  from assms(1) have "lookup d' r = lookup d r \<or>
          (lookup d r = None \<and> lookup d' r = Some Dir \<and> prefix r q) \<or>
          (r \<in> set ts \<and> (\<exists>w. lookup d' r = Some (File (Audio sr w))))"
    unfolding touched_def by blast
  with assms(2) show ?thesis by auto
qed

lemma touched_same_names:
  assumes t: "touched sr q ts d d'"
    and dirs: "\<forall>r. prefix r q \<longrightarrow> lookup d r = Some Dir"
    and files: "\<forall>t \<in> set ts. \<exists>c. lookup d t = Some (File c)"
  shows "(lookup d' r = None) = (lookup d r = None)"
proof -
  from t have "lookup d' r = lookup d r \<or>
          (lookup d r = None \<and> lookup d' r = Some Dir \<and> prefix r q) \<or>
          (r \<in> set ts \<and> (\<exists>w. lookup d' r = Some (File (Audio sr w))))"
    unfolding touched_def by blast
  then show ?thesis
    using dirs files by (elim disjE) auto
qed

lemma found_line_0: "found_line 0 = ''Found 0 audio files in /workspace/data/raw_audio''"
  by (simp add: found_line_def str_nat.simps digit_char_def INPUT_DIR_def)

lemma rglob_wav_Nil:
  assumes "\<forall>q \<in> set (map fst (nodes d)). prefix base q \<longrightarrow> \<not> fnmatch_wav (name_of q)"
  shows "rglob_wav d base = []"
proof -
  have "\<not> (visible d base q \<and> fnmatch_wav (last q))" if "q \<in> set (map fst (nodes d))" for q
  proof
    assume v: "visible d base q \<and> fnmatch_wav (last q)"
    then have "length base < length q" and "take (length base) q = base"
      by (simp_all add: visible_def)
    then have "prefix base q" and "q \<noteq> []"
      by (auto simp: prefix_def) (metis append_take_drop_id)
    with assms that v show False
      by (auto simp: name_of_def)
  qed
  then show ?thesis
    by (simp add: rglob_wav_def filter_empty_conv)
qed

lemma driver_no_files:
  "rglob_wav (disk s) (Path INPUT_DIR) = [] \<Longrightarrow>
     driver L s = Returned (print done_line (print (found_line 0) s))"
  by (simp add: driver_def Let_def)

lemma rglob_corrupt:
  "rglob_wav corrupt_disk [''workspace'', ''data'', ''raw_audio''] =
     [[''workspace'', ''data'', ''raw_audio'', ''red'', ''yes.wav''],
      [''workspace'', ''data'', ''raw_audio'', ''blue'', ''no.wav'']]"
  by (simp add: rglob_wav_def corrupt_disk_def visible_def fnmatch_wav_def lookup_def upt_conv_Cons)

lemma for_files_Raised:
  assumes "for_files L pre ir orr s = Returned s1"
    and "augment_and_save L f SAMPLE_RATE ir orr s1 = Raised e s2"
  shows "for_files L (pre @ f # post) ir orr s = Raised e s2"
  using assms by (simp add: for_files_append)

lemma compose_call_fired:
  "compose_call L ts sr (y, g) =
     (foldl (\<lambda>w (n, v). apply_transform L n v sr w) y (fired L ts g), gen_after L ts g)"
proof (induction ts arbitrary: y g)
  case Nil
  show ?case by (simp add: compose_call_def)
next
  case (Cons t ts)
  have step: "compose_call L (t # ts) sr (y, g) = compose_call L ts sr (transform_call L t sr (y, g))"
    by (simp add: compose_call_def)
  show ?case
    unfolding step
    by (simp add: transform_call_def Let_def Cons.IH split: prod.splits)
qed

lemma fired_subseq: "subseq (map fst (fired L ts g)) (map t_name ts)"
  by (induction ts arbitrary: g) (auto simp: Let_def split: prod.splits)

lemma pos_gen_after: "pos (gen_after L ts g) = pos g + length ts + length (fired L ts g)"
  by (induction ts arbitrary: g)
     (auto simp: Let_def random_random_def random_uniform_def split: prod.splits)

lemma uniform_in_window:
  fixes a b u :: rat
  assumes "a \<le> b" "0 \<le> u" "u < 1"
  shows "a \<le> a + (b - a) * u \<and> a + (b - a) * u \<le> b"
proof
  from assms have "0 \<le> (b - a) * u" by simp
  then show "a \<le> a + (b - a) * u" by simp
  from assms have "(b - a) * u \<le> (b - a) * 1"
    by (intro mult_left_mono) simp_all
  then show "a + (b - a) * u \<le> b" by simp
qed

lemma fired_window:
  assumes unit: "\<forall>a k. 0 \<le> mt L a k \<and> mt L a k < 1"
    and "(n, v) \<in> set (fired L ts g)"
  shows "\<exists>t \<in> set ts. t_name t = n \<and>
           (min_value t \<le> max_value t \<longrightarrow> min_value t \<le> v \<and> v \<le> max_value t)"
  using assms(2)
proof (induction ts arbitrary: g)
  case Nil
  then show ?case by simp
next
  case (Cons t ts)
  let ?u = "mt L (seed g) (pos g)"
  let ?g1 = "g\<lparr>pos := pos g + 1\<rparr>"
  let ?w = "mt L (seed ?g1) (pos ?g1)"
  let ?v = "min_value t + (max_value t - min_value t) * ?w"
  show ?case
  proof (cases "?u < prob t")
    case False
    with Cons.prems have "(n, v) \<in> set (fired L ts ?g1)"
      by (simp add: random_random_def)
    from Cons.IH [OF this] show ?thesis by auto
  next
    case True
    with Cons.prems have "(n, v) = (t_name t, ?v) \<or> (n, v) \<in> set (fired L ts (?g1\<lparr>pos := pos ?g1 + 1\<rparr>))"
      by (simp add: random_random_def random_uniform_def)
    then show ?thesis
    proof
      assume "(n, v) = (t_name t, ?v)"
      moreover have "min_value t \<le> max_value t \<longrightarrow> min_value t \<le> ?v \<and> ?v \<le> max_value t"
        using unit uniform_in_window [of "min_value t" "max_value t" ?w] by blast
      ultimately show ?thesis by auto
    next
      assume "(n, v) \<in> set (fired L ts (?g1\<lparr>pos := pos ?g1 + 1\<rparr>))"
      from Cons.IH [OF this] show ?thesis by auto
    qed
  qed
qed

lemma any_subset_fires:
  "\<exists>m. (\<forall>a k. 0 \<le> m a k \<and> m a k < 1) \<and>
       map fst (fired (L\<lparr>mt := m\<rparr>) augmenter g) = filter choice (map t_name augmenter)"
proof -
  define b1 where "b1 = choice ''AddGaussianNoise''"
  define b2 where "b2 = choice ''TimeStretch''"
  define b3 where "b3 = choice ''PitchShift''"
  define b4 where "b4 = choice ''Shift''"
  define p1 where "p1 = pos g"
  define p2 where "p2 = p1 + (if b1 then 2 else 1)"
  define p3 where "p3 = p2 + (if b2 then 2 else 1)"
  define p4 where "p4 = p3 + (if b3 then 2 else 1)"
  define m :: "int \<Rightarrow> nat \<Rightarrow> rat" where
    "m = (\<lambda>a k. if (k = p1 \<and> b1) \<or> (k = p2 \<and> b2) \<or> (k = p3 \<and> b3) \<or> (k = p4 \<and> b4)
                 then 1 / 4 else 3 / 4)"
  have unit: "\<forall>a k. 0 \<le> m a k \<and> m a k < 1"
    by (simp add: m_def)
  have "map fst (fired (L\<lparr>mt := m\<rparr>) augmenter g) = filter choice (map t_name augmenter)"
    unfolding augmenter_def
    by (cases b1; cases b2; cases b3; cases b4)
       (simp_all add: random_random_def random_uniform_def m_def p1_def p2_def p3_def p4_def
          b1_def [symmetric] b2_def [symmetric] b3_def [symmetric] b4_def [symmetric])
  with unit show ?thesis by blast
qed

lemma fired_loud:
  "fired loud_lib augmenter g =
     [(''AddGaussianNoise'', 9 / 2000), (''TimeStretch'', 19 / 20), (''PitchShift'', - 1),
      (''Shift'', - (1 / 10))]"
  by (simp add: augmenter_def random_random_def random_uniform_def loud_lib_def)

lemma upt_split_at:
  assumes "k < n"
  shows "[0..<n] = [0..<k] @ k # [Suc k..<n]"
proof -
  have "[0..<k + (n - k)] = [0..<k] @ [k..<k + (n - k)]"
    by (rule upt_add_eq_append) simp
  with assms show ?thesis
    by (simp add: upt_conv_Cons)
qed

lemma augment_and_save_loop:
  assumes "relative_to f ir = Inr rel" and "librosa_load L (disk s) f sr = Inr (y, sr')"
  shows "augment_and_save L f sr ir orr s =
     augment_loop L y sr orr (parent rel) (stem rel) [0..<NUM_AUGMENTATIONS] s"
  using assms by (simp add: augment_and_save_def)

lemma augment_loop_fails_in_round:
  assumes k: "k < n"
    and before: "augment_loop L y sr orr sub b [0..<k] s = Returned sk"
    and round: "augment_loop L y sr orr sub b [k] sk = Raised e s2"
  shows "augment_loop L y sr orr sub b [0..<n] s = Raised e s2"
proof -
  have "augment_loop L y sr orr sub b (k # [Suc k..<n]) sk = Raised e s2"
    using round by (auto simp: augment_loop_Cons split: sum.splits prod.splits)
  with before show ?thesis
    by (simp add: upt_split_at [OF k] augment_loop_append)
qed

lemma rglob_dir_only:
  "rglob_wav dir_only_disk [''workspace'', ''data'', ''raw_audio''] =
     [[''workspace'', ''data'', ''raw_audio'', ''clips.wav'']]"
  by (simp add: rglob_wav_def dir_only_disk_def visible_def fnmatch_wav_def lookup_def upt_conv_Cons)

lemma found_line_1: "found_line (Suc 0) = ''Found 1 audio files in /workspace/data/raw_audio''"
  by (simp add: found_line_def str_nat.simps digit_char_def INPUT_DIR_def)

lemma augment_and_save_effect:
  assumes run: "augment_and_save L file_path sr input_root output_root s = Returned s'"
    and rel: "relative_to file_path input_root = Inr rel"
  shows "stdout s' = stdout s @
      map (\<lambda>n. ''Saved: '' @ str_path (output_root @ parent rel @ [n]))
        (spec_output_names (stem rel) NUM_AUGMENTATIONS)"
    and "\<forall>n \<in> set (spec_output_names (stem rel) NUM_AUGMENTATIONS).
       \<exists>w. lookup (disk s') (output_root @ parent rel @ [n]) = Some (File (Audio sr w))"
    and "\<forall>r c. lookup (disk s') r = Some (File c) \<and> lookup (disk s') r \<noteq> lookup (disk s) r \<longrightarrow>
       (\<exists>n \<in> set (spec_output_names (stem rel) NUM_AUGMENTATIONS). r = output_root @ parent rel @ [n])"
proof -
  let ?names = "spec_output_names (stem rel) NUM_AUGMENTATIONS"
  let ?N = NUM_AUGMENTATIONS
  from run rel obtain y where
    loop: "augment_loop L y sr output_root (parent rel) (stem rel) [0..<?N] s = Returned s'"
    by (auto elim!: augment_and_save_Returned)
  have names: "map (aug_name (stem rel)) [0..<?N] = ?names"
    by (rule aug_names_spec)
  have tgts: "map (\<lambda>i. output_root @ parent rel @ [aug_name (stem rel) i]) [0..<?N] =
      map (\<lambda>n. output_root @ parent rel @ [n]) ?names"
    unfolding names [symmetric] by (simp add: comp_def)
  show "stdout s' = stdout s @ map (\<lambda>n. ''Saved: '' @ str_path (output_root @ parent rel @ [n])) ?names"
    using augment_loop_Returned [OF loop] unfolding names [symmetric] by (simp add: comp_def)
  show "\<forall>n \<in> set ?names. \<exists>w. lookup (disk s') (output_root @ parent rel @ [n]) = Some (File (Audio sr w))"
  proof
    fix n assume "n \<in> set ?names"
    then obtain k where k: "k < ?N" and n: "n = aug_name (stem rel) ([0..<?N] ! k)"
      unfolding names [symmetric] by (auto simp: in_set_conv_nth)
    from augment_loop_contents [OF loop _ , of k] k n
    show "\<exists>w. lookup (disk s') (output_root @ parent rel @ [n]) = Some (File (Audio sr w))"
      by simp
  qed
  show "\<forall>r c. lookup (disk s') r = Some (File c) \<and> lookup (disk s') r \<noteq> lookup (disk s) r \<longrightarrow>
       (\<exists>n \<in> set ?names. r = output_root @ parent rel @ [n])"
  proof (intro allI impI)
    fix r c
    assume a: "lookup (disk s') r = Some (File c) \<and> lookup (disk s') r \<noteq> lookup (disk s) r"
    have "touched sr (output_root @ parent rel) (map (\<lambda>n. output_root @ parent rel @ [n]) ?names)
        (disk s) (disk s')"
      using augment_loop_touched [of sr output_root "parent rel" "stem rel" "[0..<?N]" s L y] loop tgts
      by simp
    then have "lookup (disk s') r = lookup (disk s) r \<or>
          (lookup (disk s) r = None \<and> lookup (disk s') r = Some Dir \<and> prefix r (output_root @ parent rel)) \<or>
          (r \<in> set (map (\<lambda>n. output_root @ parent rel @ [n]) ?names) \<and>
           (\<exists>w. lookup (disk s') r = Some (File (Audio sr w))))"
      unfolding touched_def by blast
    with a show "\<exists>n \<in> set ?names. r = output_root @ parent rel @ [n]" by auto
  qed
qed

lemma run_effect_keeps_audio:
  assumes "run_effect ir orr files n d d'"
    and "lookup d r = Some (File (Audio SAMPLE_RATE w))"
  shows "\<exists>w'. lookup d' r = Some (File (Audio SAMPLE_RATE w'))"
proof -
  from assms(1) have "lookup d' r = lookup d r \<or>
          (lookup d r = None \<and> lookup d' r = Some Dir \<and>
           (\<exists>f \<in> set files. \<exists>rel. relative_to f ir = Inr rel \<and> prefix r (orr @ parent rel))) \<or>
          (\<exists>f \<in> set files. \<exists>rel. \<exists>i < n.
              relative_to f ir = Inr rel \<and>
              r = orr @ parent rel @ [aug_name (stem rel) i] \<and>
              (\<exists>w. lookup d' r = Some (File (Audio SAMPLE_RATE w))))"
    unfolding run_effect_def by blast
  with assms(2) show ?thesis by auto
qed

lemma augment_and_save_Returned_rel:
  "augment_and_save L f sr ir orr s = Returned s' \<Longrightarrow> \<exists>rel. relative_to f ir = Inr rel"
  by (auto elim: augment_and_save_Returned)

lemma for_files_outputs:
  "for_files L files ir orr s = Returned s' \<Longrightarrow>
     stdout s' = stdout s @ concat (map (spec_saved_lines ir orr) files) \<and>
     (\<forall>f \<in> set files. \<exists>rel. relative_to f ir = Inr rel \<and>
        (\<forall>n \<in> set (spec_output_names (stem rel) NUM_AUGMENTATIONS).
           \<exists>w. lookup (disk s') (orr @ parent rel @ [n]) = Some (File (Audio SAMPLE_RATE w))))"
proof (induction files arbitrary: s)
  case Nil
  then show ?case by simp
next
  case (Cons f files)
  from Cons.prems obtain s1 where
    one: "augment_and_save L f SAMPLE_RATE ir orr s = Returned s1" and
    rest: "for_files L files ir orr s1 = Returned s'"
    by (auto split: outcome.splits)
  from one obtain rel where rel: "relative_to f ir = Inr rel"
    using augment_and_save_Returned_rel by blast
  note eff = augment_and_save_effect [OF one rel]
  note IH = Cons.IH [OF rest]
  have keep: "run_effect ir orr files NUM_AUGMENTATIONS (disk s1) (disk s')"
    using for_files_run_effect [of ir orr files s1 L] rest by simp
  have first: "spec_saved_lines ir orr f =
      map (\<lambda>n. ''Saved: '' @ str_path (orr @ parent rel @ [n]))
        (spec_output_names (stem rel) NUM_AUGMENTATIONS)"
    using rel by (simp add: spec_saved_lines_def)
  have out: "stdout s' = stdout s @ concat (map (spec_saved_lines ir orr) (f # files))"
    using eff(1) IH by (simp only: first concat.simps list.map append_assoc)
  have mine: "\<forall>n \<in> set (spec_output_names (stem rel) NUM_AUGMENTATIONS).
           \<exists>w. lookup (disk s') (orr @ parent rel @ [n]) = Some (File (Audio SAMPLE_RATE w))"
  proof
    fix n assume "n \<in> set (spec_output_names (stem rel) NUM_AUGMENTATIONS)"
    with eff(2) obtain w where "lookup (disk s1) (orr @ parent rel @ [n]) = Some (File (Audio SAMPLE_RATE w))"
      by blast
    from run_effect_keeps_audio [OF keep this]
    show "\<exists>w. lookup (disk s') (orr @ parent rel @ [n]) = Some (File (Audio SAMPLE_RATE w))" .
  qed
  from out mine rel IH show ?case
    by auto
qed

lemma notebook_Returned:
  assumes "notebook L d = Returned s2"
  obtains s3 where
    "for_files L (rglob_wav d (Path INPUT_DIR)) (Path INPUT_DIR) (Path OUTPUT_DIR)
       (print (found_line (length (rglob_wav d (Path INPUT_DIR))))
          \<lparr>disk = d, gen = random_seed RANDOM_SEED, stdout = []\<rparr>) = Returned s3"
    "s2 = print done_line s3"
  using assms by (auto simp: notebook_def driver_def Let_def split: outcome.splits)

lemma augment_and_save_resampled:
  assumes run: "augment_and_save L f sr ir orr s = Returned s'"
    and rel: "relative_to f ir = Inr rel"
  shows "\<exists>r raw. lookup (disk s) f = Some (File (Audio r raw)) \<and>
    (\<forall>i < NUM_AUGMENTATIONS.
       lookup (disk s') (orr @ parent rel @ [aug_name (stem rel) i]) =
         Some (File (Audio sr (fst (compose_call L augmenter sr
           (resample L r sr raw, gen_iter L (resample L r sr raw) sr i (gen s)))))))"
proof -
  from run rel obtain y where
    load: "librosa_load L (disk s) f sr = Inr (y, sr)" and
    loop: "augment_loop L y sr orr (parent rel) (stem rel) [0..<NUM_AUGMENTATIONS] s = Returned s'"
    by (auto elim!: augment_and_save_Returned)
  from librosa_load_Inr [OF load] obtain r raw where
    held: "lookup (disk s) f = Some (File (Audio r raw))" and y: "y = resample L r sr raw"
    by blast
  have "lookup (disk s') (orr @ parent rel @ [aug_name (stem rel) i]) =
         Some (File (Audio sr (fst (compose_call L augmenter sr (y, gen_iter L y sr i (gen s))))))"
    if "i < NUM_AUGMENTATIONS" for i
    using augment_loop_contents [OF loop _, of i] that by simp
  with held y show ?thesis by blast
qed

lemma for_files_Returned_split:
  assumes "for_files L (pre @ f # post) ir orr s = Returned s'"
  obtains s1 sf where "for_files L pre ir orr s = Returned s1"
    and "augment_and_save L f SAMPLE_RATE ir orr s1 = Returned sf"
    and "for_files L post ir orr sf = Returned s'"
  using assms by (auto simp: for_files_append split: outcome.splits)

lemma tagging_chain: "compose_call tagging_lib augmenter sr (y, g) = (y, g\<lparr>pos := pos g + 4\<rparr>)"
  by (simp add: compose_call_def augmenter_def transform_call_def random_random_def tagging_lib_def)

lemma tagging_resample: "resample tagging_lib r sr w = of_nat r # of_nat sr # w"
  by (simp add: tagging_lib_def)

lemmas tagging_eval =
  augment_and_save_def relative_to_def parent_def librosa_load_def lookup_def upt3
  augment_loop_Cons tagging_chain names3 mkdir_parents.simps mkdir_leaf_def os_mkdir_def
  is_dir_def store_def sf_write_def print_def str_path_def tagging_resample Let_def

lemma tagging_notebook_returns: "\<exists>s2. notebook tagging_lib demo_disk = Returned s2"
  by (simp add: notebook_def driver_def Path_INPUT_DIR Path_OUTPUT_DIR rglob_demo Let_def)
     (simp add: SAMPLE_RATE_def tagging_eval found_line_2 stem_yes stem_no demo_disk_def
        random_seed_def RANDOM_SEED_def)

lemma tiny_tagged_run:
  "augment_and_save tagging_lib [''in'', ''red'', ''yes.wav''] 16000 [''in''] [''out''] tiny_state
     = Returned tiny_tagged_after"
  by (simp add: tagging_eval stem_yes tiny_state_def tiny_disk_def tiny_tagged_after_def
      random_seed_def RANDOM_SEED_def)

section \<open>The claims\<close>

text \<open>
  C1. For an input file on which \<open>augment_and_save\<close> returns, the routine writes exactly
  \<open>NUM_AUGMENTATIONS\<close> output files, named \<^verbatim>\<open>{basename}_aug{i}.wav\<close> for \<open>i\<close> from 1 to
  \<open>NUM_AUGMENTATIONS\<close>: the names are that many and pairwise distinct, one line
  \<^verbatim>\<open>Saved: ...\<close> is printed for each in this order, each is an audio file afterwards, and no
  other file was created or changed. For the whole notebook, when it returns: after the line
  with the count it has printed, for every file that \<open>rglob\<close> discovered and in the order
  of discovery, the \<^verbatim>\<open>Saved: ...\<close> lines of that file's output names and then the completion
  message; every output name of every discovered file is an audio file under the mirrored
  subdirectory; and every file created or changed is such an output.
\<close>

theorem augment_and_save_outputs:
  "(augment_and_save L file_path sr input_root output_root s = Returned s' \<and>
    relative_to file_path input_root = Inr rel \<longrightarrow>
      length (spec_output_names (stem rel) NUM_AUGMENTATIONS) = NUM_AUGMENTATIONS \<and>
      distinct (spec_output_names (stem rel) NUM_AUGMENTATIONS) \<and>
      stdout s' = stdout s @
        map (\<lambda>n. ''Saved: '' @ str_path (output_root @ parent rel @ [n]))
          (spec_output_names (stem rel) NUM_AUGMENTATIONS) \<and>
      (\<forall>n \<in> set (spec_output_names (stem rel) NUM_AUGMENTATIONS).
         \<exists>w. lookup (disk s') (output_root @ parent rel @ [n]) = Some (File (Audio sr w))) \<and>
      (\<forall>r c. lookup (disk s') r = Some (File c) \<and> lookup (disk s') r \<noteq> lookup (disk s) r \<longrightarrow>
         (\<exists>n \<in> set (spec_output_names (stem rel) NUM_AUGMENTATIONS). r = output_root @ parent rel @ [n]))) \<and>
   (notebook L d = Returned s2 \<longrightarrow>
      stdout s2 =
        found_line (length (rglob_wav d (Path INPUT_DIR))) #
        concat (map (spec_saved_lines (Path INPUT_DIR) (Path OUTPUT_DIR)) (rglob_wav d (Path INPUT_DIR))) @
        [done_line] \<and>
      (\<forall>f \<in> set (rglob_wav d (Path INPUT_DIR)).
         \<exists>frel. relative_to f (Path INPUT_DIR) = Inr frel \<and>
           (\<forall>n \<in> set (spec_output_names (stem frel) NUM_AUGMENTATIONS).
              \<exists>w. lookup (disk s2) (Path OUTPUT_DIR @ parent frel @ [n]) =
                Some (File (Audio SAMPLE_RATE w)))) \<and>
      (\<forall>r c. lookup (disk s2) r = Some (File c) \<and> lookup (disk s2) r \<noteq> lookup d r \<longrightarrow>
         (\<exists>f \<in> set (rglob_wav d (Path INPUT_DIR)).
            \<exists>frel. relative_to f (Path INPUT_DIR) = Inr frel \<and>
              butlast r = Path OUTPUT_DIR @ parent frel \<and>
              last r \<in> set (spec_output_names (stem frel) NUM_AUGMENTATIONS))))"
proof (intro conjI impI)
  assume a: "augment_and_save L file_path sr input_root output_root s = Returned s' \<and>
    relative_to file_path input_root = Inr rel"
  then have run: "augment_and_save L file_path sr input_root output_root s = Returned s'"
    and rel: "relative_to file_path input_root = Inr rel"
    by simp_all
  show "length (spec_output_names (stem rel) NUM_AUGMENTATIONS) = NUM_AUGMENTATIONS"
    by (simp add: spec_output_names_def)
  have "distinct (map (aug_name (stem rel)) [0..<NUM_AUGMENTATIONS])"
    by (rule distinct_aug_names) simp
  then show "distinct (spec_output_names (stem rel) NUM_AUGMENTATIONS)"
    by (simp only: aug_names_spec)
  show "stdout s' = stdout s @
        map (\<lambda>n. ''Saved: '' @ str_path (output_root @ parent rel @ [n]))
          (spec_output_names (stem rel) NUM_AUGMENTATIONS)"
    by (rule augment_and_save_effect(1) [OF run rel])
  show "\<forall>n \<in> set (spec_output_names (stem rel) NUM_AUGMENTATIONS).
         \<exists>w. lookup (disk s') (output_root @ parent rel @ [n]) = Some (File (Audio sr w))"
    by (rule augment_and_save_effect(2) [OF run rel])
  show "\<forall>r c. lookup (disk s') r = Some (File c) \<and> lookup (disk s') r \<noteq> lookup (disk s) r \<longrightarrow>
         (\<exists>n \<in> set (spec_output_names (stem rel) NUM_AUGMENTATIONS). r = output_root @ parent rel @ [n])"
    by (rule augment_and_save_effect(3) [OF run rel])
next
  let ?files = "rglob_wav d (Path INPUT_DIR)"
  let ?s0 = "\<lparr>disk = d, gen = random_seed RANDOM_SEED, stdout = []\<rparr>"
  assume "notebook L d = Returned s2"
  then obtain s3 where
    loop: "for_files L ?files (Path INPUT_DIR) (Path OUTPUT_DIR)
       (print (found_line (length ?files)) ?s0) = Returned s3"
    and s2: "s2 = print done_line s3"
    by (rule notebook_Returned)
  note out = for_files_outputs [OF loop]
  from out s2 show "stdout s2 =
        found_line (length ?files) #
        concat (map (spec_saved_lines (Path INPUT_DIR) (Path OUTPUT_DIR)) ?files) @ [done_line]"
    by simp
  from out s2 show "\<forall>f \<in> set ?files.
         \<exists>frel. relative_to f (Path INPUT_DIR) = Inr frel \<and>
           (\<forall>n \<in> set (spec_output_names (stem frel) NUM_AUGMENTATIONS).
              \<exists>w. lookup (disk s2) (Path OUTPUT_DIR @ parent frel @ [n]) =
                Some (File (Audio SAMPLE_RATE w)))"
    by simp
  have "run_effect (Path INPUT_DIR) (Path OUTPUT_DIR) ?files NUM_AUGMENTATIONS
      (disk (print (found_line (length ?files)) ?s0)) (disk s3)"
    using for_files_run_effect [of "Path INPUT_DIR" "Path OUTPUT_DIR" ?files
        "print (found_line (length ?files)) ?s0" L] loop
    by simp
  then have eff: "run_effect (Path INPUT_DIR) (Path OUTPUT_DIR) ?files NUM_AUGMENTATIONS d (disk s2)"
    using s2 by simp
  show "\<forall>r c. lookup (disk s2) r = Some (File c) \<and> lookup (disk s2) r \<noteq> lookup d r \<longrightarrow>
         (\<exists>f \<in> set ?files.
            \<exists>frel. relative_to f (Path INPUT_DIR) = Inr frel \<and>
              butlast r = Path OUTPUT_DIR @ parent frel \<and>
              last r \<in> set (spec_output_names (stem frel) NUM_AUGMENTATIONS))"
    using run_effect_files [OF eff] by blast
qed

theorem augment_and_save_outputs_witness:
  "(augment_and_save quiet_lib [''in'', ''red'', ''yes.wav''] 16000 [''in''] [''out''] tiny_state
      = Returned tiny_after \<and>
    relative_to [''in'', ''red'', ''yes.wav''] [''in''] = Inr [''red'', ''yes.wav'']) \<and>
   length (spec_output_names (stem [''red'', ''yes.wav'']) NUM_AUGMENTATIONS) = NUM_AUGMENTATIONS \<and>
   distinct (spec_output_names (stem [''red'', ''yes.wav'']) NUM_AUGMENTATIONS) \<and>
   stdout tiny_after = stdout tiny_state @
      map (\<lambda>n. ''Saved: '' @ str_path ([''out''] @ parent [''red'', ''yes.wav''] @ [n]))
        (spec_output_names (stem [''red'', ''yes.wav'']) NUM_AUGMENTATIONS) \<and>
   notebook quiet_lib demo_disk = Returned demo_after \<and>
   stdout demo_after =
      found_line (length (rglob_wav demo_disk (Path INPUT_DIR))) #
      concat (map (spec_saved_lines (Path INPUT_DIR) (Path OUTPUT_DIR)) (rglob_wav demo_disk (Path INPUT_DIR))) @
      [done_line] \<and>
   [''workspace'', ''data'', ''raw_audio'', ''blue'', ''no.wav'']
      \<in> set (rglob_wav demo_disk (Path INPUT_DIR)) \<and>
   (\<exists>frel. relative_to [''workspace'', ''data'', ''raw_audio'', ''blue'', ''no.wav''] (Path INPUT_DIR)
        = Inr frel \<and>
      (\<forall>n \<in> set (spec_output_names (stem frel) NUM_AUGMENTATIONS).
         \<exists>w. lookup (disk demo_after) (Path OUTPUT_DIR @ parent frel @ [n]) =
           Some (File (Audio SAMPLE_RATE w))))"
proof -
  have h: "augment_and_save quiet_lib [''in'', ''red'', ''yes.wav''] 16000 [''in''] [''out''] tiny_state
      = Returned tiny_after \<and>
    relative_to [''in'', ''red'', ''yes.wav''] [''in''] = Inr [''red'', ''yes.wav'']"
    by (simp add: tiny_run relative_to_def)
  have run: "notebook quiet_lib demo_disk = Returned demo_after"
    by (rule demo_run)
  have mem: "[''workspace'', ''data'', ''raw_audio'', ''blue'', ''no.wav'']
      \<in> set (rglob_wav demo_disk (Path INPUT_DIR))"
    by (simp add: Path_INPUT_DIR rglob_demo)
  note inst = augment_and_save_outputs [where L = quiet_lib
      and file_path = "[''in'', ''red'', ''yes.wav'']" and sr = 16000 and input_root = "[''in'']"
      and output_root = "[''out'']" and s = tiny_state and s' = tiny_after
      and rel = "[''red'', ''yes.wav'']" and d = demo_disk and ?s2.0 = demo_after]
  from inst h have c1: "length (spec_output_names (stem [''red'', ''yes.wav'']) NUM_AUGMENTATIONS) = NUM_AUGMENTATIONS"
    and c2: "distinct (spec_output_names (stem [''red'', ''yes.wav'']) NUM_AUGMENTATIONS)"
    and c3: "stdout tiny_after = stdout tiny_state @
      map (\<lambda>n. ''Saved: '' @ str_path ([''out''] @ parent [''red'', ''yes.wav''] @ [n]))
        (spec_output_names (stem [''red'', ''yes.wav'']) NUM_AUGMENTATIONS)"
    by blast+
  from inst run have c4: "stdout demo_after =
      found_line (length (rglob_wav demo_disk (Path INPUT_DIR))) #
      concat (map (spec_saved_lines (Path INPUT_DIR) (Path OUTPUT_DIR)) (rglob_wav demo_disk (Path INPUT_DIR))) @
      [done_line]"
    by blast
  from inst run mem have c5: "\<exists>frel. relative_to [''workspace'', ''data'', ''raw_audio'', ''blue'', ''no.wav''] (Path INPUT_DIR)
        = Inr frel \<and>
      (\<forall>n \<in> set (spec_output_names (stem frel) NUM_AUGMENTATIONS).
         \<exists>w. lookup (disk demo_after) (Path OUTPUT_DIR @ parent frel @ [n]) =
           Some (File (Audio SAMPLE_RATE w)))"
    by blast
  show ?thesis
    by (rule conjI [OF h conjI [OF c1 conjI [OF c2 conjI [OF c3 conjI [OF run conjI [OF c4
          conjI [OF mem c5]]]]]]])
qed



text \<open>
  C4. When \<open>augment_and_save\<close> returns, the file written in round \<open>i\<close> of the loop holds the
  chain applied to the waveform \<open>y\<close> that \<open>librosa_load\<close> returned, not to an earlier
  output: the generator alone differs between the rounds, being the one left by the \<open>i\<close>
  earlier applications of the chain to \<open>y\<close>.
\<close>

theorem chain_applied_to_loaded_waveform:
  assumes "augment_and_save L file_path sr input_root output_root s = Returned s'"
    and "relative_to file_path input_root = Inr rel"
    and "librosa_load L (disk s) file_path sr = Inr (y, sr')"
    and "i < NUM_AUGMENTATIONS"
  shows "lookup (disk s') (output_root @ parent rel @ [aug_name (stem rel) i]) =
      Some (File (Audio sr (fst (compose_call L augmenter sr (y, gen_iter L y sr i (gen s)))))) \<and>
    gen s' = gen_iter L y sr NUM_AUGMENTATIONS (gen s)"
proof -
  from assms(1-3) have loop:
    "augment_loop L y sr output_root (parent rel) (stem rel) [0..<NUM_AUGMENTATIONS] s = Returned s'"
    by (auto elim!: augment_and_save_Returned)
  from augment_loop_contents [OF loop _, of i] assms(4) augment_loop_Returned [OF loop]
  show ?thesis by simp
qed

theorem chain_applied_to_loaded_waveform_witness:
  "augment_and_save loud_lib [''in'', ''red'', ''yes.wav''] 16000 [''in''] [''out''] tiny_state
     = Returned tiny_loud_after \<and>
   relative_to [''in'', ''red'', ''yes.wav''] [''in''] = Inr [''red'', ''yes.wav''] \<and>
   librosa_load loud_lib (disk tiny_state) [''in'', ''red'', ''yes.wav''] 16000 = Inr ([1, 2], 16000) \<and>
   2 < NUM_AUGMENTATIONS \<and>
   lookup (disk tiny_loud_after) ([''out''] @ parent [''red'', ''yes.wav''] @ [aug_name (stem [''red'', ''yes.wav'']) 2]) =
      Some (File (Audio 16000 (fst (compose_call loud_lib augmenter 16000
         ([1, 2], gen_iter loud_lib [1, 2] 16000 2 (gen tiny_state)))))) \<and>
   gen tiny_loud_after = gen_iter loud_lib [1, 2] 16000 NUM_AUGMENTATIONS (gen tiny_state)"
proof -
  have h1: "augment_and_save loud_lib [''in'', ''red'', ''yes.wav''] 16000 [''in''] [''out''] tiny_state
     = Returned tiny_loud_after"
    by (rule tiny_loud_run)
  have h2: "relative_to [''in'', ''red'', ''yes.wav''] [''in''] = Inr [''red'', ''yes.wav'']"
    by (simp add: relative_to_def)
  have h3: "librosa_load loud_lib (disk tiny_state) [''in'', ''red'', ''yes.wav''] 16000 = Inr ([1, 2], 16000)"
    by (simp add: librosa_load_def lookup_def tiny_state_def tiny_disk_def loud_resample)
  have h4: "2 < NUM_AUGMENTATIONS"
    by (simp add: NUM_AUGMENTATIONS_def)
  note c = chain_applied_to_loaded_waveform [OF h1 h2 h3 h4]
  from h1 h2 h3 h4 conjunct1 [OF c] conjunct2 [OF c] show ?thesis
    by (intro conjI)
qed

text \<open>
  C5. The chain holds the four transforms in the order additive noise, time stretch, pitch
  shift, time shift, each with probability \<open>1/2\<close>. One invocation draws once for each
  transform, in this order, and applies to the waveform exactly the transforms whose own
  draw fell below the probability, in the chain's order; an activated transform draws once
  more for its parameter. For every choice among the four there is a generator under which
  exactly the chosen ones activate.
\<close>

theorem chain_of_four_independent_transforms:
  "map t_name augmenter = [''AddGaussianNoise'', ''TimeStretch'', ''PitchShift'', ''Shift''] \<and>
   (\<forall>t \<in> set augmenter. prob t = 1 / 2) \<and>
   compose_call L augmenter sr (y, g) =
     (foldl (\<lambda>w (n, v). apply_transform L n v sr w) y (fired L augmenter g), gen_after L augmenter g) \<and>
   subseq (map fst (fired L augmenter g)) (map t_name augmenter) \<and>
   pos (gen_after L augmenter g) = pos g + 4 + length (fired L augmenter g) \<and>
   (\<forall>choice. \<exists>m. (\<forall>a k. 0 \<le> m a k \<and> m a k < 1) \<and>
       map fst (fired (L\<lparr>mt := m\<rparr>) augmenter g) = filter choice (map t_name augmenter))"
proof (intro conjI allI)
  show "map t_name augmenter = [''AddGaussianNoise'', ''TimeStretch'', ''PitchShift'', ''Shift'']"
    by (simp add: augmenter_def)
  show "\<forall>t \<in> set augmenter. prob t = 1 / 2"
    by (simp add: augmenter_def)
  show "compose_call L augmenter sr (y, g) =
     (foldl (\<lambda>w (n, v). apply_transform L n v sr w) y (fired L augmenter g), gen_after L augmenter g)"
    by (rule compose_call_fired)
  show "subseq (map fst (fired L augmenter g)) (map t_name augmenter)"
    by (rule fired_subseq)
  have "length augmenter = 4"
    by (simp add: augmenter_def)
  then show "pos (gen_after L augmenter g) = pos g + 4 + length (fired L augmenter g)"
    by (simp add: pos_gen_after)
  show "\<exists>m. (\<forall>a k. 0 \<le> m a k \<and> m a k < 1) \<and>
       map fst (fired (L\<lparr>mt := m\<rparr>) augmenter g) = filter choice (map t_name augmenter)" for choice
    by (rule any_subset_fires)
qed

theorem chain_of_four_independent_transforms_witness:
  "compose_call loud_lib augmenter 16000 ([1, 2], random_seed RANDOM_SEED) =
     (foldl (\<lambda>w (n, v). apply_transform loud_lib n v 16000 w) [1, 2]
        (fired loud_lib augmenter (random_seed RANDOM_SEED)),
      gen_after loud_lib augmenter (random_seed RANDOM_SEED)) \<and>
   prob (augmenter ! 2) = 1 / 2 \<and>
   (\<exists>m. (\<forall>a k. 0 \<le> m a k \<and> m a k < 1) \<and>
       map fst (fired (loud_lib\<lparr>mt := m\<rparr>) augmenter (random_seed RANDOM_SEED)) =
         filter (\<lambda>n. n = ''PitchShift'') (map t_name augmenter))"
proof -
  note inst = chain_of_four_independent_transforms [of loud_lib 16000 "[1, 2]" "random_seed RANDOM_SEED"]
  from inst have c1: "compose_call loud_lib augmenter 16000 ([1, 2], random_seed RANDOM_SEED) =
     (foldl (\<lambda>w (n, v). apply_transform loud_lib n v 16000 w) [1, 2]
        (fired loud_lib augmenter (random_seed RANDOM_SEED)),
      gen_after loud_lib augmenter (random_seed RANDOM_SEED))"
    by blast
  have "augmenter ! 2 \<in> set augmenter"
    by (simp add: augmenter_def)
  with inst have c2: "prob (augmenter ! 2) = 1 / 2"
    by blast
  from inst have c3: "\<exists>m. (\<forall>a k. 0 \<le> m a k \<and> m a k < 1) \<and>
       map fst (fired (loud_lib\<lparr>mt := m\<rparr>) augmenter (random_seed RANDOM_SEED)) =
         filter (\<lambda>n. n = ''PitchShift'') (map t_name augmenter)"
    by blast
  show ?thesis
    by (rule conjI [OF c1 conjI [OF c2 c3]])
qed

text \<open>
  C6. Whatever the rate \<open>r\<close> stored in the input file, \<open>librosa_load\<close> returns the waveform
  resampled from \<open>r\<close> to the rate asked for, together with that rate. When
  \<open>augment_and_save\<close> returns, the input file held audio at some rate \<open>r\<close>, and each output
  holds, at the rate \<open>sr\<close> the routine was given, the chain applied at \<open>sr\<close> to the input's
  samples resampled from \<open>r\<close> to \<open>sr\<close>; every file it creates or changes holds audio at
  \<open>sr\<close>. When the notebook returns, every file that \<open>rglob\<close> discovered was processed so
  with \<open>sr = SAMPLE_RATE\<close>, in the state the files before it had left; and every file that
  the notebook creates or changes, returning or raising, holds audio at \<open>SAMPLE_RATE\<close>.
\<close>

theorem outputs_at_configured_rate:
  "(librosa_load L d file_path sr = Inr (y, sr') \<longrightarrow>
      sr' = sr \<and> (\<exists>r raw. lookup d file_path = Some (File (Audio r raw)) \<and> y = resample L r sr raw)) \<and>
   (augment_and_save L file_path sr input_root output_root s = Returned s' \<and>
    relative_to file_path input_root = Inr rel \<longrightarrow>
      (\<exists>r raw. lookup (disk s) file_path = Some (File (Audio r raw)) \<and>
        (\<forall>i < NUM_AUGMENTATIONS.
           lookup (disk s') (output_root @ parent rel @ [aug_name (stem rel) i]) =
             Some (File (Audio sr (fst (compose_call L augmenter sr
               (resample L r sr raw, gen_iter L (resample L r sr raw) sr i (gen s))))))))) \<and>
   (\<forall>q c. lookup (disk (final (augment_and_save L file_path sr input_root output_root s))) q = Some (File c) \<and>
          lookup (disk (final (augment_and_save L file_path sr input_root output_root s))) q \<noteq> lookup (disk s) q \<longrightarrow>
      (\<exists>w. c = Audio sr w)) \<and>
   (notebook L d0 = Returned s2 \<and> rglob_wav d0 (Path INPUT_DIR) = pre @ f # post \<longrightarrow>
      (\<exists>s1 sf frel r raw.
         for_files L pre (Path INPUT_DIR) (Path OUTPUT_DIR)
           (print (found_line (length (pre @ f # post)))
              \<lparr>disk = d0, gen = random_seed RANDOM_SEED, stdout = []\<rparr>) = Returned s1 \<and>
         augment_and_save L f SAMPLE_RATE (Path INPUT_DIR) (Path OUTPUT_DIR) s1 = Returned sf \<and>
         relative_to f (Path INPUT_DIR) = Inr frel \<and>
         lookup (disk s1) f = Some (File (Audio r raw)) \<and>
         (\<forall>i < NUM_AUGMENTATIONS.
            lookup (disk sf) (Path OUTPUT_DIR @ parent frel @ [aug_name (stem frel) i]) =
              Some (File (Audio SAMPLE_RATE (fst (compose_call L augmenter SAMPLE_RATE
                (resample L r SAMPLE_RATE raw,
                 gen_iter L (resample L r SAMPLE_RATE raw) SAMPLE_RATE i (gen s1))))))))) \<and>
   (\<forall>q c. lookup (disk (final (notebook L d0))) q = Some (File c) \<and>
          lookup (disk (final (notebook L d0))) q \<noteq> lookup d0 q \<longrightarrow>
      (\<exists>w. c = Audio SAMPLE_RATE w))"
proof (intro conjI impI allI)
  assume "librosa_load L d file_path sr = Inr (y, sr')"
  then show "sr' = sr" and "\<exists>r raw. lookup d file_path = Some (File (Audio r raw)) \<and> y = resample L r sr raw"
    by (auto dest: librosa_load_Inr)
next
  assume "augment_and_save L file_path sr input_root output_root s = Returned s' \<and>
    relative_to file_path input_root = Inr rel"
  then show "\<exists>r raw. lookup (disk s) file_path = Some (File (Audio r raw)) \<and>
        (\<forall>i < NUM_AUGMENTATIONS.
           lookup (disk s') (output_root @ parent rel @ [aug_name (stem rel) i]) =
             Some (File (Audio sr (fst (compose_call L augmenter sr
               (resample L r sr raw, gen_iter L (resample L r sr raw) sr i (gen s)))))))"
    using augment_and_save_resampled by blast
next
  fix q c
  let ?d' = "disk (final (augment_and_save L file_path sr input_root output_root s))"
  assume a: "lookup ?d' q = Some (File c) \<and> lookup ?d' q \<noteq> lookup (disk s) q"
  obtain p ts where "touched sr p ts (disk s) ?d'"
    using augment_and_save_touched by blast
  then have "lookup ?d' q = lookup (disk s) q \<or>
          (lookup (disk s) q = None \<and> lookup ?d' q = Some Dir \<and> prefix q p) \<or>
          (q \<in> set ts \<and> (\<exists>w. lookup ?d' q = Some (File (Audio sr w))))"
    unfolding touched_def by blast
  with a show "\<exists>w. c = Audio sr w" by auto
next
  let ?s0 = "\<lparr>disk = d0, gen = random_seed RANDOM_SEED, stdout = []\<rparr>"
  assume a: "notebook L d0 = Returned s2 \<and> rglob_wav d0 (Path INPUT_DIR) = pre @ f # post"
  then obtain s3 where "for_files L (pre @ f # post) (Path INPUT_DIR) (Path OUTPUT_DIR)
       (print (found_line (length (pre @ f # post))) ?s0) = Returned s3"
    by (auto elim!: notebook_Returned)
  then obtain s1 sf where
    before: "for_files L pre (Path INPUT_DIR) (Path OUTPUT_DIR)
       (print (found_line (length (pre @ f # post))) ?s0) = Returned s1"
    and one: "augment_and_save L f SAMPLE_RATE (Path INPUT_DIR) (Path OUTPUT_DIR) s1 = Returned sf"
    by (rule for_files_Returned_split)
  from one obtain frel where frel: "relative_to f (Path INPUT_DIR) = Inr frel"
    using augment_and_save_Returned_rel by blast
  from augment_and_save_resampled [OF one frel] before one frel
  show "\<exists>s1 sf frel r raw.
         for_files L pre (Path INPUT_DIR) (Path OUTPUT_DIR)
           (print (found_line (length (pre @ f # post))) ?s0) = Returned s1 \<and>
         augment_and_save L f SAMPLE_RATE (Path INPUT_DIR) (Path OUTPUT_DIR) s1 = Returned sf \<and>
         relative_to f (Path INPUT_DIR) = Inr frel \<and>
         lookup (disk s1) f = Some (File (Audio r raw)) \<and>
         (\<forall>i < NUM_AUGMENTATIONS.
            lookup (disk sf) (Path OUTPUT_DIR @ parent frel @ [aug_name (stem frel) i]) =
              Some (File (Audio SAMPLE_RATE (fst (compose_call L augmenter SAMPLE_RATE
                (resample L r SAMPLE_RATE raw,
                 gen_iter L (resample L r SAMPLE_RATE raw) SAMPLE_RATE i (gen s1)))))))"
    by blast
next
  fix q c
  let ?s0 = "\<lparr>disk = d0, gen = random_seed RANDOM_SEED, stdout = []\<rparr>"
  let ?files = "rglob_wav d0 (Path INPUT_DIR)"
  let ?d' = "disk (final (notebook L d0))"
  assume a: "lookup ?d' q = Some (File c) \<and> lookup ?d' q \<noteq> lookup d0 q"
  have "?d' = disk (final (for_files L ?files (Path INPUT_DIR) (Path OUTPUT_DIR)
       (print (found_line (length ?files)) ?s0)))"
    by (simp add: notebook_def disk_final_driver)
  moreover have "run_effect (Path INPUT_DIR) (Path OUTPUT_DIR) ?files NUM_AUGMENTATIONS
      (disk (print (found_line (length ?files)) ?s0))
      (disk (final (for_files L ?files (Path INPUT_DIR) (Path OUTPUT_DIR)
       (print (found_line (length ?files)) ?s0))))"
    by (rule for_files_run_effect)
  ultimately have "run_effect (Path INPUT_DIR) (Path OUTPUT_DIR) ?files NUM_AUGMENTATIONS d0 ?d'"
    by simp
  from run_effect_files [OF this] a show "\<exists>w. c = Audio SAMPLE_RATE w"
    by blast
qed

theorem outputs_at_configured_rate_witness:
  "librosa_load tagging_lib tiny_disk [''in'', ''red'', ''yes.wav''] 16000 = Inr ([8000, 16000, 1, 2], 16000) \<and>
   (16000 = (16000 :: nat) \<and>
    (\<exists>r raw. lookup tiny_disk [''in'', ''red'', ''yes.wav''] = Some (File (Audio r raw)) \<and>
       [8000, 16000, 1, 2] = resample tagging_lib r 16000 raw)) \<and>
   augment_and_save tagging_lib [''in'', ''red'', ''yes.wav''] 16000 [''in''] [''out''] tiny_state = Returned tiny_tagged_after \<and>
   relative_to [''in'', ''red'', ''yes.wav''] [''in''] = Inr [''red'', ''yes.wav''] \<and>
   (\<exists>r raw. lookup (disk tiny_state) [''in'', ''red'', ''yes.wav''] = Some (File (Audio r raw)) \<and>
        (\<forall>i < NUM_AUGMENTATIONS.
           lookup (disk tiny_tagged_after) ([''out''] @ parent [''red'', ''yes.wav''] @ [aug_name (stem [''red'', ''yes.wav'']) i]) =
             Some (File (Audio 16000 (fst (compose_call tagging_lib augmenter 16000
               (resample tagging_lib r 16000 raw, gen_iter tagging_lib (resample tagging_lib r 16000 raw) 16000 i (gen tiny_state)))))))) \<and>
   lookup (disk tiny_tagged_after) [''out'', ''red'', ''yes_aug1.wav''] = Some (File (Audio 16000 [8000, 16000, 1, 2])) \<and>
   rglob_wav demo_disk (Path INPUT_DIR) = [] @ [''workspace'', ''data'', ''raw_audio'', ''red'', ''yes.wav''] # [[''workspace'', ''data'', ''raw_audio'', ''blue'', ''no.wav'']] \<and>
   (\<exists>s1 sf frel r raw.
         for_files tagging_lib [] (Path INPUT_DIR) (Path OUTPUT_DIR)
           (print (found_line (length ([] @ [''workspace'', ''data'', ''raw_audio'', ''red'', ''yes.wav''] # [[''workspace'', ''data'', ''raw_audio'', ''blue'', ''no.wav'']])))
              \<lparr>disk = demo_disk, gen = random_seed RANDOM_SEED, stdout = []\<rparr>) = Returned s1 \<and>
         augment_and_save tagging_lib [''workspace'', ''data'', ''raw_audio'', ''red'', ''yes.wav''] SAMPLE_RATE (Path INPUT_DIR) (Path OUTPUT_DIR) s1 = Returned sf \<and>
         relative_to [''workspace'', ''data'', ''raw_audio'', ''red'', ''yes.wav''] (Path INPUT_DIR) = Inr frel \<and>
         lookup (disk s1) [''workspace'', ''data'', ''raw_audio'', ''red'', ''yes.wav''] = Some (File (Audio r raw)) \<and>
         (\<forall>i < NUM_AUGMENTATIONS.
            lookup (disk sf) (Path OUTPUT_DIR @ parent frel @ [aug_name (stem frel) i]) =
              Some (File (Audio SAMPLE_RATE (fst (compose_call tagging_lib augmenter SAMPLE_RATE
                (resample tagging_lib r SAMPLE_RATE raw,
                 gen_iter tagging_lib (resample tagging_lib r SAMPLE_RATE raw) SAMPLE_RATE i (gen s1)))))))) \<and>
   lookup (disk (final (notebook quiet_lib demo_disk))) [''workspace'', ''data'', ''augmented_audio'', ''red'', ''yes_aug1.wav''] = Some (File (Audio 16000 [1, 2])) \<and>
   lookup (disk (final (notebook quiet_lib demo_disk))) [''workspace'', ''data'', ''augmented_audio'', ''red'', ''yes_aug1.wav''] \<noteq> lookup demo_disk [''workspace'', ''data'', ''augmented_audio'', ''red'', ''yes_aug1.wav''] \<and>
   (\<exists>w. Audio 16000 [1, 2] = Audio SAMPLE_RATE w)"
proof -
  have hl: "librosa_load tagging_lib tiny_disk [''in'', ''red'', ''yes.wav''] 16000 = Inr ([8000, 16000, 1, 2], 16000)"
    by (simp add: librosa_load_def lookup_def tiny_disk_def tagging_resample)
  have h1: "augment_and_save tagging_lib [''in'', ''red'', ''yes.wav''] 16000 [''in''] [''out''] tiny_state = Returned tiny_tagged_after"
    by (rule tiny_tagged_run)
  have h2: "relative_to [''in'', ''red'', ''yes.wav''] [''in''] = Inr [''red'', ''yes.wav'']"
    by (simp add: relative_to_def)
  have ev: "lookup (disk tiny_tagged_after) [''out'', ''red'', ''yes_aug1.wav''] = Some (File (Audio 16000 [8000, 16000, 1, 2]))"
    by (simp add: tiny_tagged_after_def lookup_def)
  have hg: "rglob_wav demo_disk (Path INPUT_DIR) = [] @ [''workspace'', ''data'', ''raw_audio'', ''red'', ''yes.wav''] # [[''workspace'', ''data'', ''raw_audio'', ''blue'', ''no.wav'']]"
    by (simp add: Path_INPUT_DIR rglob_demo)
  have a1: "lookup (disk (final (notebook quiet_lib demo_disk))) [''workspace'', ''data'', ''augmented_audio'', ''red'', ''yes_aug1.wav''] = Some (File (Audio 16000 [1, 2]))"
    unfolding demo_run by (simp add: demo_after_def lookup_def)
  have a2: "lookup (disk (final (notebook quiet_lib demo_disk))) [''workspace'', ''data'', ''augmented_audio'', ''red'', ''yes_aug1.wav''] \<noteq> lookup demo_disk [''workspace'', ''data'', ''augmented_audio'', ''red'', ''yes_aug1.wav'']"
    unfolding demo_run by (simp add: demo_after_def demo_disk_def lookup_def)
  note inst = outputs_at_configured_rate [where L = tagging_lib and d = tiny_disk
      and file_path = "[''in'', ''red'', ''yes.wav'']" and sr = 16000 and y = "[8000, 16000, 1, 2]" and sr' = 16000
      and input_root = "[''in'']" and output_root = "[''out'']" and s = tiny_state
      and s' = tiny_tagged_after and rel = "[''red'', ''yes.wav'']"]
  from inst hl have c1: "16000 = (16000 :: nat) \<and>
    (\<exists>r raw. lookup tiny_disk [''in'', ''red'', ''yes.wav''] = Some (File (Audio r raw)) \<and>
       [8000, 16000, 1, 2] = resample tagging_lib r 16000 raw)"
    by blast
  from inst h1 h2 have c2: "\<exists>r raw. lookup (disk tiny_state) [''in'', ''red'', ''yes.wav''] = Some (File (Audio r raw)) \<and>
        (\<forall>i < NUM_AUGMENTATIONS.
           lookup (disk tiny_tagged_after) ([''out''] @ parent [''red'', ''yes.wav''] @ [aug_name (stem [''red'', ''yes.wav'']) i]) =
             Some (File (Audio 16000 (fst (compose_call tagging_lib augmenter 16000
               (resample tagging_lib r 16000 raw, gen_iter tagging_lib (resample tagging_lib r 16000 raw) 16000 i (gen tiny_state)))))))"
    by blast
  obtain s2 where run: "notebook tagging_lib demo_disk = Returned s2"
    using tagging_notebook_returns by blast
  note inst_run = outputs_at_configured_rate [where L = tagging_lib and ?d0.0 = demo_disk
      and ?s2.0 = s2 and pre = "[]" and f = "[''workspace'', ''data'', ''raw_audio'', ''red'', ''yes.wav'']" and post = "[[''workspace'', ''data'', ''raw_audio'', ''blue'', ''no.wav'']]"]
  from inst_run run hg have c4: "\<exists>s1 sf frel r raw.
         for_files tagging_lib [] (Path INPUT_DIR) (Path OUTPUT_DIR)
           (print (found_line (length ([] @ [''workspace'', ''data'', ''raw_audio'', ''red'', ''yes.wav''] # [[''workspace'', ''data'', ''raw_audio'', ''blue'', ''no.wav'']])))
              \<lparr>disk = demo_disk, gen = random_seed RANDOM_SEED, stdout = []\<rparr>) = Returned s1 \<and>
         augment_and_save tagging_lib [''workspace'', ''data'', ''raw_audio'', ''red'', ''yes.wav''] SAMPLE_RATE (Path INPUT_DIR) (Path OUTPUT_DIR) s1 = Returned sf \<and>
         relative_to [''workspace'', ''data'', ''raw_audio'', ''red'', ''yes.wav''] (Path INPUT_DIR) = Inr frel \<and>
         lookup (disk s1) [''workspace'', ''data'', ''raw_audio'', ''red'', ''yes.wav''] = Some (File (Audio r raw)) \<and>
         (\<forall>i < NUM_AUGMENTATIONS.
            lookup (disk sf) (Path OUTPUT_DIR @ parent frel @ [aug_name (stem frel) i]) =
              Some (File (Audio SAMPLE_RATE (fst (compose_call tagging_lib augmenter SAMPLE_RATE
                (resample tagging_lib r SAMPLE_RATE raw,
                 gen_iter tagging_lib (resample tagging_lib r SAMPLE_RATE raw) SAMPLE_RATE i (gen s1)))))))"
    by blast
  note inst_quiet = outputs_at_configured_rate [where L = quiet_lib and ?d0.0 = demo_disk]
  from inst_quiet a1 a2 have c5: "\<exists>w. Audio 16000 [1, 2] = Audio SAMPLE_RATE w"
    by blast
  show ?thesis
    by (rule conjI [OF hl conjI [OF c1 conjI [OF h1 conjI [OF h2 conjI [OF c2 conjI [OF ev
          conjI [OF hg conjI [OF c4 conjI [OF a1 conjI [OF a2 c5]]]]]]]]]])
qed

text \<open>
  C7, as the spec states it, fails for a missing input directory: \<open>rglob\<close> on a path that is
  not a directory yields no entry and raises nothing, so the notebook reports zero files,
  prints the completion message and returns.
\<close>

theorem missing_input_directory_counterexample:
  "notebook quiet_lib no_input_disk =
     Returned \<lparr>disk = no_input_disk, gen = random_seed RANDOM_SEED,
       stdout = [''Found 0 audio files in /workspace/data/raw_audio'', done_line]\<rparr>"
proof -
  have "rglob_wav no_input_disk (Path INPUT_DIR) = []"
    by (simp add: rglob_wav_def no_input_disk_def Path_INPUT_DIR visible_def lookup_def upt_conv_Cons)
  then show ?thesis
    by (simp add: notebook_def driver_no_files found_line_0 print_def)
qed

text \<open>
  C7, amended. A failure raised while a file is processed ends the run at once with that
  failure. \<open>augment_and_save\<close> raises the load's error, with the state untouched, when the
  file cannot be loaded (missing, a directory, denied, undecodable); it raises the error of
  \<open>mkdir\<close> or of the write when either fails in round \<open>k\<close> of its loop, the rounds before
  having been done; and it raises whatever its loop raises. When \<open>augment_and_save\<close> raises
  on a file, the loop over the files raises the same error in the same state, whatever
  files follow, and so does the driver, which then prints no completion message.
\<close>

theorem failure_terminates_run:
  "(relative_to f input_root = Inr rel \<and> librosa_load L (disk s1) f sr = Inl e \<longrightarrow>
      augment_and_save L f sr input_root output_root s1 = Raised e s1) \<and>
   (relative_to f input_root = Inr rel \<and> librosa_load L (disk s1) f sr = Inr (y, sr') \<and>
    augment_loop L y sr output_root (parent rel) (stem rel) [0..<NUM_AUGMENTATIONS] s1 = Raised e s2 \<longrightarrow>
      augment_and_save L f sr input_root output_root s1 = Raised e s2) \<and>
   (relative_to f input_root = Inr rel \<and> librosa_load L (disk s1) f sr = Inr (y, sr') \<and>
    k < NUM_AUGMENTATIONS \<and>
    augment_loop L y sr output_root (parent rel) (stem rel) [0..<k] s1 = Returned sk \<and>
    mkdir_parents (output_root @ parent rel) (disk sk) = Inl (e, d1) \<longrightarrow>
      augment_and_save L f sr input_root output_root s1 =
        Raised e (sk\<lparr>gen := snd (compose_call L augmenter sr (y, gen sk)), disk := d1\<rparr>)) \<and>
   (relative_to f input_root = Inr rel \<and> librosa_load L (disk s1) f sr = Inr (y, sr') \<and>
    k < NUM_AUGMENTATIONS \<and>
    augment_loop L y sr output_root (parent rel) (stem rel) [0..<k] s1 = Returned sk \<and>
    mkdir_parents (output_root @ parent rel) (disk sk) = Inr d1 \<and>
    sf_write d1 (output_root @ parent rel @ [aug_name (stem rel) k])
      (fst (compose_call L augmenter sr (y, gen sk))) sr = Inl e \<longrightarrow>
      augment_and_save L f sr input_root output_root s1 =
        Raised e (sk\<lparr>gen := snd (compose_call L augmenter sr (y, gen sk)), disk := d1\<rparr>)) \<and>
   (for_files L pre input_root output_root s = Returned s1 \<and>
    augment_and_save L f SAMPLE_RATE input_root output_root s1 = Raised e s2 \<longrightarrow>
      for_files L (pre @ f # post) input_root output_root s = Raised e s2) \<and>
   (rglob_wav (disk s0) (Path INPUT_DIR) = pre @ f # post \<and>
    for_files L pre (Path INPUT_DIR) (Path OUTPUT_DIR)
      (print (found_line (length (pre @ f # post))) s0) = Returned s1 \<and>
    augment_and_save L f SAMPLE_RATE (Path INPUT_DIR) (Path OUTPUT_DIR) s1 = Raised e s2 \<longrightarrow>
      driver L s0 = Raised e s2)"
proof (intro conjI impI)
  assume "relative_to f input_root = Inr rel \<and> librosa_load L (disk s1) f sr = Inl e"
  then show "augment_and_save L f sr input_root output_root s1 = Raised e s1"
    by (simp add: augment_and_save_def)
next
  assume "relative_to f input_root = Inr rel \<and> librosa_load L (disk s1) f sr = Inr (y, sr') \<and>
    augment_loop L y sr output_root (parent rel) (stem rel) [0..<NUM_AUGMENTATIONS] s1 = Raised e s2"
  then show "augment_and_save L f sr input_root output_root s1 = Raised e s2"
    by (simp add: augment_and_save_loop)
next
  let ?s2 = "sk\<lparr>gen := snd (compose_call L augmenter sr (y, gen sk)), disk := d1\<rparr>"
  assume a: "relative_to f input_root = Inr rel \<and> librosa_load L (disk s1) f sr = Inr (y, sr') \<and>
    k < NUM_AUGMENTATIONS \<and>
    augment_loop L y sr output_root (parent rel) (stem rel) [0..<k] s1 = Returned sk \<and>
    mkdir_parents (output_root @ parent rel) (disk sk) = Inl (e, d1)"
  then have "augment_loop L y sr output_root (parent rel) (stem rel) [k] sk = Raised e ?s2"
    by (simp add: augment_loop_Cons)
  with a have "augment_loop L y sr output_root (parent rel) (stem rel) [0..<NUM_AUGMENTATIONS] s1
      = Raised e ?s2"
    by (intro augment_loop_fails_in_round [of k]) simp_all
  with a show "augment_and_save L f sr input_root output_root s1 = Raised e ?s2"
    by (simp add: augment_and_save_loop)
next
  let ?s2 = "sk\<lparr>gen := snd (compose_call L augmenter sr (y, gen sk)), disk := d1\<rparr>"
  assume a: "relative_to f input_root = Inr rel \<and> librosa_load L (disk s1) f sr = Inr (y, sr') \<and>
    k < NUM_AUGMENTATIONS \<and>
    augment_loop L y sr output_root (parent rel) (stem rel) [0..<k] s1 = Returned sk \<and>
    mkdir_parents (output_root @ parent rel) (disk sk) = Inr d1 \<and>
    sf_write d1 (output_root @ parent rel @ [aug_name (stem rel) k])
      (fst (compose_call L augmenter sr (y, gen sk))) sr = Inl e"
  then have "augment_loop L y sr output_root (parent rel) (stem rel) [k] sk = Raised e ?s2"
    by (simp add: augment_loop_Cons)
  with a have "augment_loop L y sr output_root (parent rel) (stem rel) [0..<NUM_AUGMENTATIONS] s1
      = Raised e ?s2"
    by (intro augment_loop_fails_in_round [of k]) simp_all
  with a show "augment_and_save L f sr input_root output_root s1 = Raised e ?s2"
    by (simp add: augment_and_save_loop)
next
  assume "for_files L pre input_root output_root s = Returned s1 \<and>
    augment_and_save L f SAMPLE_RATE input_root output_root s1 = Raised e s2"
  then show "for_files L (pre @ f # post) input_root output_root s = Raised e s2"
    by (simp add: for_files_Raised)
next
  assume a: "rglob_wav (disk s0) (Path INPUT_DIR) = pre @ f # post \<and>
    for_files L pre (Path INPUT_DIR) (Path OUTPUT_DIR)
      (print (found_line (length (pre @ f # post))) s0) = Returned s1 \<and>
    augment_and_save L f SAMPLE_RATE (Path INPUT_DIR) (Path OUTPUT_DIR) s1 = Raised e s2"
  then have "for_files L (pre @ f # post) (Path INPUT_DIR) (Path OUTPUT_DIR)
      (print (found_line (length (pre @ f # post))) s0) = Raised e s2"
    by (simp add: for_files_Raised)
  with a show "driver L s0 = Raised e s2"
    by (simp add: driver_def Let_def)
qed

theorem failure_terminates_run_witness:
  "(rglob_wav (disk corrupt_start) (Path INPUT_DIR) =
     [] @ [''workspace'', ''data'', ''raw_audio'', ''red'', ''yes.wav''] #
          [[''workspace'', ''data'', ''raw_audio'', ''blue'', ''no.wav'']] \<and>
    for_files quiet_lib [] (Path INPUT_DIR) (Path OUTPUT_DIR)
      (print (found_line (length ([] @ [''workspace'', ''data'', ''raw_audio'', ''red'', ''yes.wav''] #
          [[''workspace'', ''data'', ''raw_audio'', ''blue'', ''no.wav'']]))) corrupt_start)
     = Returned (print (found_line 2) corrupt_start) \<and>
    relative_to [''workspace'', ''data'', ''raw_audio'', ''red'', ''yes.wav''] (Path INPUT_DIR)
     = Inr [''red'', ''yes.wav''] \<and>
    librosa_load quiet_lib (disk (print (found_line 2) corrupt_start))
      [''workspace'', ''data'', ''raw_audio'', ''red'', ''yes.wav''] SAMPLE_RATE = Inl LoadError) \<and>
   (augment_and_save quiet_lib [''workspace'', ''data'', ''raw_audio'', ''red'', ''yes.wav''] SAMPLE_RATE
      (Path INPUT_DIR) (Path OUTPUT_DIR) (print (found_line 2) corrupt_start)
     = Raised LoadError (print (found_line 2) corrupt_start) \<and>
    driver quiet_lib corrupt_start = Raised LoadError (print (found_line 2) corrupt_start)) \<and>
   (relative_to [''in'', ''red'', ''yes.wav''] [''in''] = Inr [''red'', ''yes.wav''] \<and>
    librosa_load quiet_lib (disk blocked_tiny) [''in'', ''red'', ''yes.wav''] 16000 = Inr ([1, 2], 16000) \<and>
    0 < NUM_AUGMENTATIONS \<and>
    augment_loop quiet_lib [1, 2] 16000 [''out''] (parent [''red'', ''yes.wav''])
      (stem [''red'', ''yes.wav'']) [0..<0] blocked_tiny = Returned blocked_tiny \<and>
    mkdir_parents ([''out''] @ parent [''red'', ''yes.wav'']) (disk blocked_tiny)
      = Inl (NotADirectoryError, disk blocked_tiny) \<and>
    augment_and_save quiet_lib [''in'', ''red'', ''yes.wav''] 16000 [''in''] [''out''] blocked_tiny =
      Raised NotADirectoryError
        (blocked_tiny\<lparr>gen := snd (compose_call quiet_lib augmenter 16000 ([1, 2], gen blocked_tiny)),
           disk := disk blocked_tiny\<rparr>)) \<and>
   (librosa_load quiet_lib (disk dir_target) [''in'', ''red'', ''yes.wav''] 16000 = Inr ([1, 2], 16000) \<and>
    1 < NUM_AUGMENTATIONS \<and>
    augment_loop quiet_lib [1, 2] 16000 [''out''] (parent [''red'', ''yes.wav''])
      (stem [''red'', ''yes.wav'']) [0..<1] dir_target = Returned dir_target_after1 \<and>
    mkdir_parents ([''out''] @ parent [''red'', ''yes.wav'']) (disk dir_target_after1)
      = Inr (disk dir_target_after1) \<and>
    sf_write (disk dir_target_after1)
      ([''out''] @ parent [''red'', ''yes.wav''] @ [aug_name (stem [''red'', ''yes.wav'']) 1])
      (fst (compose_call quiet_lib augmenter 16000 ([1, 2], gen dir_target_after1))) 16000
      = Inl WriteError \<and>
    augment_and_save quiet_lib [''in'', ''red'', ''yes.wav''] 16000 [''in''] [''out''] dir_target =
      Raised WriteError
        (dir_target_after1\<lparr>gen := snd (compose_call quiet_lib augmenter 16000 ([1, 2], gen dir_target_after1)),
           disk := disk dir_target_after1\<rparr>))"
proof -
  let ?f = "[''workspace'', ''data'', ''raw_audio'', ''red'', ''yes.wav'']"
  let ?post = "[[''workspace'', ''data'', ''raw_audio'', ''blue'', ''no.wav'']]"
  let ?s1 = "print (found_line 2) corrupt_start"
  have h1: "rglob_wav (disk corrupt_start) (Path INPUT_DIR) = [] @ ?f # ?post"
    by (simp add: corrupt_start_def Path_INPUT_DIR rglob_corrupt)
  have h2: "for_files quiet_lib [] (Path INPUT_DIR) (Path OUTPUT_DIR)
      (print (found_line (length ([] @ ?f # ?post))) corrupt_start) = Returned ?s1"
    by (simp add: numeral_2_eq_2)
  have h3: "relative_to ?f (Path INPUT_DIR) = Inr [''red'', ''yes.wav'']"
    by (simp add: Path_INPUT_DIR relative_to_def)
  have h4: "librosa_load quiet_lib (disk ?s1) ?f SAMPLE_RATE = Inl LoadError"
    by (simp add: librosa_load_def lookup_def corrupt_start_def corrupt_disk_def)
  note inst = failure_terminates_run [where L = quiet_lib and ?s0.0 = corrupt_start and pre = "[]"
      and f = ?f and post = ?post and ?s1.0 = ?s1 and e = LoadError and ?s2.0 = ?s1
      and input_root = "Path INPUT_DIR" and output_root = "Path OUTPUT_DIR" and sr = SAMPLE_RATE
      and rel = "[''red'', ''yes.wav'']"]
  from inst h3 h4 have c1: "augment_and_save quiet_lib ?f SAMPLE_RATE (Path INPUT_DIR) (Path OUTPUT_DIR) ?s1
     = Raised LoadError ?s1"
    by blast
  from inst h1 h2 c1 have c2: "driver quiet_lib corrupt_start = Raised LoadError ?s1"
    by blast
  have r: "relative_to [''in'', ''red'', ''yes.wav''] [''in''] = Inr [''red'', ''yes.wav'']"
    by (simp add: relative_to_def)
  have m1: "librosa_load quiet_lib (disk blocked_tiny) [''in'', ''red'', ''yes.wav''] 16000 = Inr ([1, 2], 16000)"
    by (simp add: librosa_load_def lookup_def blocked_tiny_def quiet_resample)
  have m2: "0 < NUM_AUGMENTATIONS"
    by (simp add: NUM_AUGMENTATIONS_def)
  have m3: "augment_loop quiet_lib [1, 2] 16000 [''out''] (parent [''red'', ''yes.wav''])
      (stem [''red'', ''yes.wav'']) [0..<0] blocked_tiny = Returned blocked_tiny"
    by simp
  have m4: "mkdir_parents ([''out''] @ parent [''red'', ''yes.wav'']) (disk blocked_tiny)
      = Inl (NotADirectoryError, disk blocked_tiny)"
    by (simp add: parent_def mkdir_parents.simps mkdir_leaf_def os_mkdir_def lookup_def is_dir_def
        blocked_tiny_def)
  note inst_mkdir = failure_terminates_run [where L = quiet_lib and f = "[''in'', ''red'', ''yes.wav'']"
      and input_root = "[''in'']" and output_root = "[''out'']" and rel = "[''red'', ''yes.wav'']"
      and ?s1.0 = blocked_tiny and sr = 16000 and y = "[1, 2]" and sr' = 16000 and k = 0
      and sk = blocked_tiny and e = NotADirectoryError and ?d1.0 = "disk blocked_tiny"]
  from inst_mkdir r m1 m2 m3 m4 have c3: "augment_and_save quiet_lib [''in'', ''red'', ''yes.wav''] 16000 [''in''] [''out''] blocked_tiny =
      Raised NotADirectoryError
        (blocked_tiny\<lparr>gen := snd (compose_call quiet_lib augmenter 16000 ([1, 2], gen blocked_tiny)),
           disk := disk blocked_tiny\<rparr>)"
    by blast
  have w1: "librosa_load quiet_lib (disk dir_target) [''in'', ''red'', ''yes.wav''] 16000 = Inr ([1, 2], 16000)"
    by (simp add: librosa_load_def lookup_def dir_target_def quiet_resample)
  have w2: "1 < NUM_AUGMENTATIONS"
    by (simp add: NUM_AUGMENTATIONS_def)
  have w3: "augment_loop quiet_lib [1, 2] 16000 [''out''] (parent [''red'', ''yes.wav''])
      (stem [''red'', ''yes.wav'']) [0..<1] dir_target = Returned dir_target_after1"
    by (simp add: run_eval stem_yes dir_target_def dir_target_after1_def random_seed_def RANDOM_SEED_def)
  have w4: "mkdir_parents ([''out''] @ parent [''red'', ''yes.wav'']) (disk dir_target_after1)
      = Inr (disk dir_target_after1)"
    by (simp add: parent_def mkdir_parents.simps mkdir_leaf_def os_mkdir_def lookup_def is_dir_def
        dir_target_after1_def)
  have w5: "sf_write (disk dir_target_after1)
      ([''out''] @ parent [''red'', ''yes.wav''] @ [aug_name (stem [''red'', ''yes.wav'']) 1])
      (fst (compose_call quiet_lib augmenter 16000 ([1, 2], gen dir_target_after1))) 16000
      = Inl WriteError"
    by (simp add: sf_write_def lookup_def parent_def stem_yes names3 dir_target_after1_def)
  note inst_write = failure_terminates_run [where L = quiet_lib and f = "[''in'', ''red'', ''yes.wav'']"
      and input_root = "[''in'']" and output_root = "[''out'']" and rel = "[''red'', ''yes.wav'']"
      and ?s1.0 = dir_target and sr = 16000 and y = "[1, 2]" and sr' = 16000 and k = 1
      and sk = dir_target_after1 and e = WriteError and ?d1.0 = "disk dir_target_after1"]
  from inst_write r w1 w2 w3 w4 w5 have c4: "augment_and_save quiet_lib [''in'', ''red'', ''yes.wav''] 16000 [''in''] [''out''] dir_target =
      Raised WriteError
        (dir_target_after1\<lparr>gen := snd (compose_call quiet_lib augmenter 16000 ([1, 2], gen dir_target_after1)),
           disk := disk dir_target_after1\<rparr>)"
    by blast
  show ?thesis
    by (rule conjI [OF conjI [OF h1 conjI [OF h2 conjI [OF h3 h4]]]
          conjI [OF conjI [OF c1 c2]
            conjI [OF conjI [OF r conjI [OF m1 conjI [OF m2 conjI [OF m3 conjI [OF m4 c3]]]]]
              conjI [OF w1 conjI [OF w2 conjI [OF w3 conjI [OF w4 conjI [OF w5 c4]]]]]]]])
qed

text \<open>
  C8. Let every value of the generator lie in \<open>[0, 1)\<close>. Then the parameter of each
  transform that activates lies in the window that \<open>AUGMENTATION_PARAMS\<close> configures for it:
  the noise amplitude, the time-stretch rate, the pitch-shift semitones and the shift
  fraction.
\<close>

theorem parameters_within_windows:
  assumes "\<forall>a k. 0 \<le> mt L a k \<and> mt L a k < 1"
  shows "((''AddGaussianNoise'', v) \<in> set (fired L augmenter g) \<longrightarrow>
      fst (AUGMENTATION_PARAMS noise_amplitude) \<le> v \<and> v \<le> snd (AUGMENTATION_PARAMS noise_amplitude)) \<and>
    ((''TimeStretch'', v) \<in> set (fired L augmenter g) \<longrightarrow>
      fst (AUGMENTATION_PARAMS time_stretch_rate) \<le> v \<and> v \<le> snd (AUGMENTATION_PARAMS time_stretch_rate)) \<and>
    ((''PitchShift'', v) \<in> set (fired L augmenter g) \<longrightarrow>
      fst (AUGMENTATION_PARAMS pitch_shift_semitones) \<le> v \<and> v \<le> snd (AUGMENTATION_PARAMS pitch_shift_semitones)) \<and>
    ((''Shift'', v) \<in> set (fired L augmenter g) \<longrightarrow>
      fst (AUGMENTATION_PARAMS shift_fraction) \<le> v \<and> v \<le> snd (AUGMENTATION_PARAMS shift_fraction))"
proof -
  have w: "\<exists>t \<in> set augmenter. t_name t = n \<and>
           (min_value t \<le> max_value t \<longrightarrow> min_value t \<le> v \<and> v \<le> max_value t)"
    if "(n, v) \<in> set (fired L augmenter g)" for n
    using fired_window [OF assms that] .
  show ?thesis
  proof (intro conjI impI)
    assume "(''AddGaussianNoise'', v) \<in> set (fired L augmenter g)"
    from w [OF this] show "fst (AUGMENTATION_PARAMS noise_amplitude) \<le> v"
      and "v \<le> snd (AUGMENTATION_PARAMS noise_amplitude)"
      by (auto simp: augmenter_def)
  next
    assume "(''TimeStretch'', v) \<in> set (fired L augmenter g)"
    from w [OF this] show "fst (AUGMENTATION_PARAMS time_stretch_rate) \<le> v"
      and "v \<le> snd (AUGMENTATION_PARAMS time_stretch_rate)"
      by (auto simp: augmenter_def)
  next
    assume "(''PitchShift'', v) \<in> set (fired L augmenter g)"
    from w [OF this] show "fst (AUGMENTATION_PARAMS pitch_shift_semitones) \<le> v"
      and "v \<le> snd (AUGMENTATION_PARAMS pitch_shift_semitones)"
      by (auto simp: augmenter_def)
  next
    assume "(''Shift'', v) \<in> set (fired L augmenter g)"
    from w [OF this] show "fst (AUGMENTATION_PARAMS shift_fraction) \<le> v"
      and "v \<le> snd (AUGMENTATION_PARAMS shift_fraction)"
      by (auto simp: augmenter_def)
  qed
qed

theorem parameters_within_windows_witness:
  "(''TimeStretch'', 19 / 20) \<in> set (fired loud_lib augmenter (random_seed RANDOM_SEED)) \<and>
   fst (AUGMENTATION_PARAMS time_stretch_rate) \<le> 19 / 20 \<and>
   19 / 20 \<le> snd (AUGMENTATION_PARAMS time_stretch_rate)"
proof -
  have unit: "\<forall>a k. 0 \<le> mt loud_lib a k \<and> mt loud_lib a k < 1"
    by (simp add: loud_lib_def)
  have h: "(''TimeStretch'', 19 / 20) \<in> set (fired loud_lib augmenter (random_seed RANDOM_SEED))"
    by (simp add: fired_loud)
  note inst = parameters_within_windows [OF unit, of "19 / 20" "random_seed RANDOM_SEED"]
  from inst h have c: "fst (AUGMENTATION_PARAMS time_stretch_rate) \<le> 19 / 20 \<and>
      19 / 20 \<le> snd (AUGMENTATION_PARAMS time_stretch_rate)"
    by blast
  show ?thesis
    by (rule conjI [OF h c])
qed

text \<open>
  C9, as the spec states it, fails when the only entry below the input root whose name
  matches is a directory: no file matches, yet \<open>rglob\<close> yields the directory, the notebook
  reports one file, and loading it raises.
\<close>

theorem directory_named_wav_counterexample:
  "notebook quiet_lib dir_only_disk =
     Raised IsADirectoryError
       \<lparr>disk = dir_only_disk, gen = random_seed RANDOM_SEED,
        stdout = [''Found 1 audio files in /workspace/data/raw_audio'']\<rparr>"
  by (simp add: notebook_def driver_def Path_INPUT_DIR Path_OUTPUT_DIR rglob_dir_only Let_def)
     (simp add: augment_and_save_def relative_to_def librosa_load_def lookup_def dir_only_disk_def
        found_line_1 print_def)

text \<open>
  C9, amended. If no entry below the input root, file or directory, has a name that matches
  \<^verbatim>\<open>*.wav\<close>, the notebook prints that it found 0 audio files and the completion message,
  leaves the filesystem as it was (no file, no directory), and returns.
\<close>

theorem no_matching_files:
  assumes "\<forall>q \<in> set (map fst (nodes d)). prefix (Path INPUT_DIR) q \<longrightarrow> \<not> fnmatch_wav (name_of q)"
  shows "notebook L d =
     Returned \<lparr>disk = d, gen = random_seed RANDOM_SEED,
       stdout = [''Found 0 audio files in /workspace/data/raw_audio'', done_line]\<rparr>"
proof -
  from assms have "rglob_wav d (Path INPUT_DIR) = []"
    by (rule rglob_wav_Nil)
  then show ?thesis
    by (simp add: notebook_def driver_no_files found_line_0 print_def)
qed

theorem no_matching_files_witness:
  "notebook loud_lib empty_input_disk =
     Returned \<lparr>disk = empty_input_disk, gen = random_seed RANDOM_SEED,
       stdout = [''Found 0 audio files in /workspace/data/raw_audio'', done_line]\<rparr>"
proof -
  have h: "\<forall>q \<in> set (map fst (nodes empty_input_disk)).
      prefix (Path INPUT_DIR) q \<longrightarrow> \<not> fnmatch_wav (name_of q)"
    by (simp add: empty_input_disk_def Path_INPUT_DIR fnmatch_wav_def name_of_def)
  from no_matching_files [OF h] show ?thesis .
qed

text \<open>
  C10. Let the input file load, let every directory on the way to the output subdirectory
  be absent or a directory already, let every target name be absent or a regular file
  already, and let none of them be denied. Then \<open>augment_and_save\<close> returns without raising;
  each target holds the new output afterwards, whatever it held before; nothing exists
  afterwards but what existed before, the directories on the way and the targets; and when
  the directories and the targets all existed before, exactly the same paths exist
  afterwards.
\<close>

theorem existing_outputs_are_overwritten:
  assumes rel: "relative_to file_path input_root = Inr rel"
    and load: "librosa_load L (disk s) file_path sr = Inr (y, sr')"
    and dirs: "\<forall>r. prefix r (output_root @ parent rel) \<longrightarrow>
        (lookup (disk s) r = None \<or> lookup (disk s) r = Some Dir) \<and> r \<notin> set (denied (disk s))"
    and tgts: "\<forall>i < NUM_AUGMENTATIONS.
        (lookup (disk s) (output_root @ parent rel @ [aug_name (stem rel) i]) = None \<or>
         (\<exists>c. lookup (disk s) (output_root @ parent rel @ [aug_name (stem rel) i]) = Some (File c))) \<and>
        output_root @ parent rel @ [aug_name (stem rel) i] \<notin> set (denied (disk s))"
  shows "\<exists>s'. augment_and_save L file_path sr input_root output_root s = Returned s' \<and>
    (\<forall>i < NUM_AUGMENTATIONS.
       lookup (disk s') (output_root @ parent rel @ [aug_name (stem rel) i]) =
         Some (File (Audio sr (fst (compose_call L augmenter sr (y, gen_iter L y sr i (gen s))))))) \<and>
    (\<forall>r. lookup (disk s') r \<noteq> None \<longrightarrow>
       lookup (disk s) r \<noteq> None \<or> prefix r (output_root @ parent rel) \<or>
       (\<exists>i < NUM_AUGMENTATIONS. r = output_root @ parent rel @ [aug_name (stem rel) i])) \<and>
    ((\<forall>r. prefix r (output_root @ parent rel) \<longrightarrow> lookup (disk s) r = Some Dir) \<and>
     (\<forall>i < NUM_AUGMENTATIONS. \<exists>c. lookup (disk s) (output_root @ parent rel @ [aug_name (stem rel) i]) = Some (File c)) \<longrightarrow>
     (\<forall>r. (lookup (disk s') r = None) = (lookup (disk s) r = None)))"
proof -
  let ?N = NUM_AUGMENTATIONS
  let ?q = "output_root @ parent rel"
  let ?ts = "map (\<lambda>i. output_root @ parent rel @ [aug_name (stem rel) i]) [0..<?N]"
  from load have sr': "sr' = sr"
    by (simp add: librosa_load_Inr)
  have "ready ?q ?ts (disk s)"
    using dirs tgts by (auto simp: ready_def)
  then obtain s' where loop:
    "augment_loop L y sr output_root (parent rel) (stem rel) [0..<?N] s = Returned s'"
    using augment_loop_ready by blast
  with rel load sr' have run: "augment_and_save L file_path sr input_root output_root s = Returned s'"
    by (simp add: augment_and_save_def)
  have t: "touched sr ?q ?ts (disk s) (disk s')"
    using augment_loop_touched [of sr output_root "parent rel" "stem rel" "[0..<?N]" s L y] loop
    by simp
  have contents: "lookup (disk s') (output_root @ parent rel @ [aug_name (stem rel) i]) =
         Some (File (Audio sr (fst (compose_call L augmenter sr (y, gen_iter L y sr i (gen s))))))"
    if "i < ?N" for i
    using augment_loop_contents [OF loop _, of i] that by simp
  have bound: "lookup (disk s) r \<noteq> None \<or> prefix r ?q \<or>
       (\<exists>i < ?N. r = output_root @ parent rel @ [aug_name (stem rel) i])"
    if "lookup (disk s') r \<noteq> None" for r
    using touched_exists [OF t that] by auto
  have same: "(lookup (disk s') r = None) = (lookup (disk s) r = None)"
    if "\<forall>r. prefix r ?q \<longrightarrow> lookup (disk s) r = Some Dir"
      and "\<forall>i < ?N. \<exists>c. lookup (disk s) (output_root @ parent rel @ [aug_name (stem rel) i]) = Some (File c)"
    for r
    using that by (intro touched_same_names [OF t]) auto
  from run contents bound same show ?thesis
    by blast
qed

theorem existing_outputs_are_overwritten_witness:
  "relative_to [''in'', ''red'', ''yes.wav''] [''in''] = Inr [''red'', ''yes.wav''] \<and>
   librosa_load quiet_lib (disk tiny_after) [''in'', ''red'', ''yes.wav''] 16000 = Inr ([1, 2], 16000) \<and>
   (\<exists>s'. augment_and_save quiet_lib [''in'', ''red'', ''yes.wav''] 16000 [''in''] [''out''] tiny_after = Returned s' \<and>
      lookup (disk s') [''out'', ''red'', ''yes_aug1.wav''] =
        Some (File (Audio 16000 (fst (compose_call quiet_lib augmenter 16000
          ([1, 2], gen_iter quiet_lib [1, 2] 16000 0 (gen tiny_after)))))) \<and>
      (\<forall>r. (lookup (disk s') r = None) = (lookup (disk tiny_after) r = None)))"
proof -
  have rel: "relative_to [''in'', ''red'', ''yes.wav''] [''in''] = Inr [''red'', ''yes.wav'']"
    by (simp add: relative_to_def)
  have load: "librosa_load quiet_lib (disk tiny_after) [''in'', ''red'', ''yes.wav''] 16000 = Inr ([1, 2], 16000)"
    by (simp add: librosa_load_def lookup_def tiny_after_def quiet_resample)
  have there: "\<forall>r. prefix r ([''out''] @ parent [''red'', ''yes.wav'']) \<longrightarrow> lookup (disk tiny_after) r = Some Dir"
    by (auto simp: parent_def prefix_pair tiny_after_def lookup_def)
  have dirs: "\<forall>r. prefix r ([''out''] @ parent [''red'', ''yes.wav'']) \<longrightarrow>
        (lookup (disk tiny_after) r = None \<or> lookup (disk tiny_after) r = Some Dir) \<and>
        r \<notin> set (denied (disk tiny_after))"
    by (simp add: parent_def prefix_Cons tiny_after_def lookup_def)
  have rounds: "i = 0 \<or> i = Suc 0 \<or> i = 2" if "i < NUM_AUGMENTATIONS" for i
    using that by (auto simp: NUM_AUGMENTATIONS_def)
  have files: "\<forall>i < NUM_AUGMENTATIONS. \<exists>c. lookup (disk tiny_after) ([''out''] @ parent [''red'', ''yes.wav''] @ [aug_name (stem [''red'', ''yes.wav'']) i]) = Some (File c)"
  proof (intro allI impI)
    fix i assume "i < NUM_AUGMENTATIONS"
    from rounds [OF this] show "\<exists>c. lookup (disk tiny_after) ([''out''] @ parent [''red'', ''yes.wav''] @ [aug_name (stem [''red'', ''yes.wav'']) i]) = Some (File c)"
      by (elim disjE) (simp_all add: parent_def stem_yes names3 tiny_after_def lookup_def)
  qed
  have tgts: "\<forall>i < NUM_AUGMENTATIONS.
        (lookup (disk tiny_after) ([''out''] @ parent [''red'', ''yes.wav''] @ [aug_name (stem [''red'', ''yes.wav'']) i]) = None \<or>
         (\<exists>c. lookup (disk tiny_after) ([''out''] @ parent [''red'', ''yes.wav''] @ [aug_name (stem [''red'', ''yes.wav'']) i]) = Some (File c))) \<and>
        [''out''] @ parent [''red'', ''yes.wav''] @ [aug_name (stem [''red'', ''yes.wav'']) i] \<notin> set (denied (disk tiny_after))"
  proof (intro allI impI)
    fix i assume "i < NUM_AUGMENTATIONS"
    from rounds [OF this] show "(lookup (disk tiny_after) ([''out''] @ parent [''red'', ''yes.wav''] @ [aug_name (stem [''red'', ''yes.wav'']) i]) = None \<or>
         (\<exists>c. lookup (disk tiny_after) ([''out''] @ parent [''red'', ''yes.wav''] @ [aug_name (stem [''red'', ''yes.wav'']) i]) = Some (File c))) \<and>
        [''out''] @ parent [''red'', ''yes.wav''] @ [aug_name (stem [''red'', ''yes.wav'']) i] \<notin> set (denied (disk tiny_after))"
      by (elim disjE) (simp_all add: parent_def stem_yes names3 tiny_after_def lookup_def)
  qed
  from existing_outputs_are_overwritten [OF rel load dirs tgts] obtain s' where
    run: "augment_and_save quiet_lib [''in'', ''red'', ''yes.wav''] 16000 [''in''] [''out''] tiny_after = Returned s'"
    and new: "\<forall>i < NUM_AUGMENTATIONS.
       lookup (disk s') ([''out''] @ parent [''red'', ''yes.wav''] @ [aug_name (stem [''red'', ''yes.wav'']) i]) =
         Some (File (Audio 16000 (fst (compose_call quiet_lib augmenter 16000
           ([1, 2], gen_iter quiet_lib [1, 2] 16000 i (gen tiny_after))))))"
    and same: "(\<forall>r. prefix r ([''out''] @ parent [''red'', ''yes.wav'']) \<longrightarrow> lookup (disk tiny_after) r = Some Dir) \<and>
     (\<forall>i < NUM_AUGMENTATIONS. \<exists>c. lookup (disk tiny_after) ([''out''] @ parent [''red'', ''yes.wav''] @ [aug_name (stem [''red'', ''yes.wav'']) i]) = Some (File c)) \<longrightarrow>
     (\<forall>r. (lookup (disk s') r = None) = (lookup (disk tiny_after) r = None))"
    by blast
  have "0 < NUM_AUGMENTATIONS"
    by (simp add: NUM_AUGMENTATIONS_def)
  with new have first: "lookup (disk s') [''out'', ''red'', ''yes_aug1.wav''] =
        Some (File (Audio 16000 (fst (compose_call quiet_lib augmenter 16000
          ([1, 2], gen_iter quiet_lib [1, 2] 16000 0 (gen tiny_after))))))"
    by (auto simp: parent_def stem_yes names3 simp del: gen_iter.simps)
  from same there files have "\<forall>r. (lookup (disk s') r = None) = (lookup (disk tiny_after) r = None)"
    by blast
  with run first have "\<exists>s'. augment_and_save quiet_lib [''in'', ''red'', ''yes.wav''] 16000 [''in''] [''out''] tiny_after = Returned s' \<and>
      lookup (disk s') [''out'', ''red'', ''yes_aug1.wav''] =
        Some (File (Audio 16000 (fst (compose_call quiet_lib augmenter 16000
          ([1, 2], gen_iter quiet_lib [1, 2] 16000 0 (gen tiny_after)))))) \<and>
      (\<forall>r. (lookup (disk s') r = None) = (lookup (disk tiny_after) r = None))"
    by blast
  with rel load show ?thesis
    by (intro conjI)
qed

end
